theory Spec2Isabelle
  imports Complex_Main "HOL-Library.AList" "HOL-Library.Char_ord" "HOL-Library.List_Lexorder"
begin

section \<open>Errors and tensors\<close>

text \<open>
  The Python exception classes that the modelled code can raise. Shape and size
  mismatches reported by the tensor library are \<open>RuntimeError\<close>; an invalid dimension
  number and an out-of-range tuple index are \<open>IndexError\<close>; a failed \<open>assert\<close> is
  \<open>AssertionError\<close>; a failed tuple unpacking and an invalid dropout probability are
  \<open>ValueError\<close>; a missing dictionary key is \<open>KeyError\<close>.
\<close>

datatype error =
  AssertionError | ZeroDivisionError | RuntimeError | ValueError | IndexError | KeyError

definition ebind :: "error + 'a \<Rightarrow> ('a \<Rightarrow> error + 'b) \<Rightarrow> error + 'b" where
  "ebind m f = (case m of Inl e \<Rightarrow> Inl e | Inr x \<Rightarrow> f x)"

text \<open>
  A tensor is its shape and its elements, read by a multi-index (one index per
  dimension). Elements are real numbers: the rounding of the 32-bit floats of the
  source is not modelled. Outside the shape the element function is not meaningful,
  and every statement below reads it inside the shape only.
\<close>

record tensor =
  shape :: "nat list"
  elem :: "nat list \<Rightarrow> real"

definition in_range :: "nat list \<Rightarrow> nat list \<Rightarrow> bool" where
  "in_range i sh = list_all2 (\<lambda>j d. j < d) i sh"

definition zeros :: "nat list \<Rightarrow> tensor" where
  "zeros sh = \<lparr>shape = sh, elem = (\<lambda>i. 0)\<rparr>"

definition torch_zeros :: "int list \<Rightarrow> error + tensor" where
  \<comment> \<open>\<open>torch.zeros(*size)\<close>: a negative dimension is refused.\<close>
  "torch_zeros sz = (if list_ex (\<lambda>d. d < 0) sz then Inl RuntimeError
                     else Inr (zeros (map nat sz)))"

definition tmap :: "(real \<Rightarrow> real) \<Rightarrow> tensor \<Rightarrow> tensor" where
  \<comment> \<open>an elementwise function: \<open>torch.exp\<close>, \<open>torch.sin\<close>, \<open>torch.cos\<close>, a scalar factor\<close>
  "tmap f t = \<lparr>shape = shape t, elem = (\<lambda>i. f (elem t i))\<rparr>"

subsection \<open>Broadcasting\<close>

text \<open>
  The tensor library's rule for a binary elementwise operation: the shapes are
  aligned at their last dimension, the shorter one is padded with ones in front, and
  two sizes agree when they are equal or one of them is 1 (which is then repeated).
\<close>

definition bdim :: "nat \<Rightarrow> nat \<Rightarrow> nat option" where
  "bdim m n = (if m = n then Some m else if m = 1 then Some n
               else if n = 1 then Some m else None)"

fun bshape :: "nat list \<Rightarrow> nat list \<Rightarrow> nat list option" where
  "bshape [] [] = Some []"
| "bshape (m # ms) (n # ns) =
     (case bdim m n of None \<Rightarrow> None
      | Some d \<Rightarrow> (case bshape ms ns of None \<Rightarrow> None | Some ds \<Rightarrow> Some (d # ds)))"
| "bshape _ _ = None"

definition pad_shape :: "nat \<Rightarrow> nat list \<Rightarrow> nat list" where
  "pad_shape n sh = replicate (n - length sh) 1 @ sh"

definition broadcast_shapes :: "nat list \<Rightarrow> nat list \<Rightarrow> nat list option" where
  "broadcast_shapes a b =
     (let n = max (length a) (length b) in bshape (pad_shape n a) (pad_shape n b))"

definition bindex :: "nat list \<Rightarrow> nat list \<Rightarrow> nat list" where
  \<comment> \<open>the index into an operand of shape \<open>sh\<close> that the result's index \<open>i\<close> reads\<close>
  "bindex sh i = map2 (\<lambda>d j. if d = 1 then 0 else j) sh (drop (length i - length sh) i)"

definition bcast :: "(real \<Rightarrow> real \<Rightarrow> real) \<Rightarrow> nat list \<Rightarrow> tensor \<Rightarrow> tensor \<Rightarrow> tensor" where
  "bcast f sh a b =
     \<lparr>shape = sh,
      elem = (\<lambda>i. f (elem a (bindex (shape a) i)) (elem b (bindex (shape b) i)))\<rparr>"

definition tbinop :: "(real \<Rightarrow> real \<Rightarrow> real) \<Rightarrow> tensor \<Rightarrow> tensor \<Rightarrow> error + tensor" where
  "tbinop f a b =
     (case broadcast_shapes (shape a) (shape b) of
        None \<Rightarrow> Inl RuntimeError
      | Some sh \<Rightarrow> Inr (bcast f sh a b))"

definition tadd :: "tensor \<Rightarrow> tensor \<Rightarrow> error + tensor" where
  \<comment> \<open>\<open>a + b\<close>\<close>
  "tadd a b = tbinop (\<lambda>u v. u + v) a b"

definition tmul :: "tensor \<Rightarrow> tensor \<Rightarrow> error + tensor" where
  \<comment> \<open>\<open>a * b\<close>\<close>
  "tmul a b = tbinop (\<lambda>u v. u * v) a b"

definition tadd_inplace :: "tensor \<Rightarrow> tensor \<Rightarrow> error + tensor" where
  \<comment> \<open>\<open>a += b\<close>: the result keeps the shape of \<open>a\<close>, so \<open>b\<close> must broadcast to it.\<close>
  "tadd_inplace a b =
     (if broadcast_shapes (shape a) (shape b) = Some (shape a) then tadd a b
      else Inl RuntimeError)"

definition unsqueeze :: "nat \<Rightarrow> tensor \<Rightarrow> tensor" where
  \<comment> \<open>\<open>t.unsqueeze(d)\<close> for \<open>d\<close> at most the rank of \<open>t\<close>\<close>
  "unsqueeze d t =
     \<lparr>shape = take d (shape t) @ [1] @ drop d (shape t),
      elem = (\<lambda>i. elem t (take d i @ drop (Suc d) i))\<rparr>"

section \<open>position_encoding\<close>

definition arange :: "nat \<Rightarrow> tensor" where
  \<comment> \<open>\<open>torch.arange(n)\<close>\<close>
  "arange n = \<lparr>shape = [n], elem = (\<lambda>i. case i of [k] \<Rightarrow> real k | _ \<Rightarrow> 0)\<rparr>"

definition arange_step2 :: "nat \<Rightarrow> tensor" where
  \<comment> \<open>\<open>torch.arange(0, n, 2)\<close>: the values 0, 2, 4, ... below \<open>n\<close>\<close>
  "arange_step2 n =
     \<lparr>shape = [(n + 1) div 2], elem = (\<lambda>i. case i of [k] \<Rightarrow> real (2 * k) | _ \<Rightarrow> 0)\<rparr>"

definition assign_cols :: "nat \<Rightarrow> tensor \<Rightarrow> tensor \<Rightarrow> tensor" where
  \<comment> \<open>the matrix \<open>t\<close> after its columns \<open>start, start + 2, ...\<close> are overwritten from \<open>src\<close>\<close>
  "assign_cols start t src =
     t\<lparr>elem := (\<lambda>i. case i of
                  [p, j] \<Rightarrow>
                    if start \<le> j \<and> even (j - start)
                    then elem src (bindex (shape src) [p, (j - start) div 2])
                    else elem t i
                | _ \<Rightarrow> elem t i)\<rparr>"

definition set_cols :: "nat \<Rightarrow> tensor \<Rightarrow> tensor \<Rightarrow> error + tensor" where
  \<comment> \<open>\<open>t[:, start::2] = src\<close> on a matrix \<open>t\<close>, for \<open>start\<close> 0 or 1: the slice has
      \<open>(c + 1 - start) div 2\<close> of the \<open>c\<close> columns, and \<open>src\<close> must broadcast to its shape.\<close>
  "set_cols start t src =
     (case shape t of
        [r, c] \<Rightarrow>
          (let w = (c + 1 - start) div 2 in
           if broadcast_shapes [r, w] (shape src) = Some [r, w]
           then Inr (assign_cols start t src)
           else Inl RuntimeError)
      | _ \<Rightarrow> Inl RuntimeError)"

definition val :: "int \<Rightarrow> tensor" where
  \<comment> \<open>\<open>torch.exp(torch.arange(0, n_embd, 2) * -(math.log(10000.0) / n_embd))\<close>, for
      \<open>n_embd\<close> other than 0\<close>
  "val n_embd = tmap exp (tmap (\<lambda>v. v * - (ln 10000 / real_of_int n_embd))
                               (arange_step2 (nat n_embd)))"

record position_encoding =
  pos_encodings :: tensor

definition position_encoding_init :: "int \<Rightarrow> int \<Rightarrow> error + position_encoding" where
  \<comment> \<open>\<open>position_encoding.__init__(n_embd, device, seq_len)\<close>; \<open>seq_len\<close> defaults to 1000.
      The division by \<open>n_embd\<close> raises when it is 0.\<close>
  "position_encoding_init n_embd seq_len =
     ebind (torch_zeros [seq_len, n_embd]) (\<lambda>pe0.
     let pos = unsqueeze 1 (arange (nat seq_len)) in
     if n_embd = 0 then Inl ZeroDivisionError
     else
       ebind (tmul pos (val n_embd)) (\<lambda>pv.
       ebind (set_cols 0 pe0 (tmap sin pv)) (\<lambda>pe1.
       ebind (tmul pos (val n_embd)) (\<lambda>pv'.
       ebind (set_cols 1 pe1 (tmap cos pv')) (\<lambda>pe2.
       Inr \<lparr>pos_encodings = unsqueeze 0 pe2\<rparr>)))))"

text \<open>
  The intermediate values of the constructor when every step succeeds: the product
  \<open>pos * val\<close> and the table after both assignments.
\<close>

abbreviation pe_pv :: "int \<Rightarrow> int \<Rightarrow> tensor" where
  "pe_pv n_embd seq_len \<equiv>
     bcast (\<lambda>u v. u * v) [nat seq_len, (nat n_embd + 1) div 2]
       (unsqueeze 1 (arange (nat seq_len))) (val n_embd)"

abbreviation pe_table :: "int \<Rightarrow> int \<Rightarrow> tensor" where
  "pe_table n_embd seq_len \<equiv>
     assign_cols 1 (assign_cols 0 (zeros [nat seq_len, nat n_embd]) (tmap sin (pe_pv n_embd seq_len)))
       (tmap cos (pe_pv n_embd seq_len))"

definition slice_dim1 :: "nat \<Rightarrow> tensor \<Rightarrow> tensor" where
  \<comment> \<open>\<open>t[:, :n]\<close> on a tensor of rank 2 or more: a slice bound past the end is clamped.\<close>
  "slice_dim1 n t =
     (case shape t of
        d0 # d1 # ds \<Rightarrow> t\<lparr>shape := d0 # min n d1 # ds\<rparr>
      | _ \<Rightarrow> t)"

definition position_encoding_forward :: "position_encoding \<Rightarrow> tensor \<Rightarrow> error + tensor" where
  \<comment> \<open>\<open>x + self.pos_encodings[:, :x.shape[1]]\<close>; \<open>x.shape[1]\<close> needs rank 2 or more.\<close>
  "position_encoding_forward pe x =
     (if length (shape x) < 2 then Inl IndexError
      else tadd x (slice_dim1 (shape x ! 1) (pos_encodings pe)))"

section \<open>Library layers\<close>

text \<open>
  \<open>nn.Linear\<close>: its weight and bias are drawn at random by the constructor and later
  overwritten by a checkpoint; here they are given to the constructor. A negative
  feature count is refused when the weight is allocated.
\<close>

record Linear =
  in_features :: nat
  out_features :: nat
  weight :: "nat \<Rightarrow> nat \<Rightarrow> real"
  bias :: "(nat \<Rightarrow> real) option"

type_synonym linear_params = "(nat \<Rightarrow> nat \<Rightarrow> real) \<times> (nat \<Rightarrow> real)"

definition nn_Linear :: "int \<Rightarrow> int \<Rightarrow> bool \<Rightarrow> linear_params \<Rightarrow> error + Linear" where
  \<comment> \<open>\<open>nn.Linear(in_features, out_features, bias = with_bias)\<close>\<close>
  "nn_Linear n_in n_out with_bias ps =
     (if n_in < 0 \<or> n_out < 0 then Inl RuntimeError
      else Inr \<lparr>in_features = nat n_in, out_features = nat n_out, weight = fst ps,
                bias = (if with_bias then Some (snd ps) else None)\<rparr>)"

definition Linear_forward :: "Linear \<Rightarrow> tensor \<Rightarrow> error + tensor" where
  \<comment> \<open>the layer applied to the last dimension, which must have \<open>in_features\<close> entries\<close>
  "Linear_forward l x =
     (if shape x = [] \<or> last (shape x) \<noteq> in_features l then Inl RuntimeError
      else Inr \<lparr>shape = butlast (shape x) @ [out_features l],
                elem = (\<lambda>i. (\<Sum>c<in_features l. elem x (butlast i @ [c]) * weight l (last i) c)
                            + (case bias l of None \<Rightarrow> 0 | Some b \<Rightarrow> b (last i)))\<rparr>)"

definition nn_Dropout :: "real \<Rightarrow> error + real" where
  \<comment> \<open>\<open>nn.Dropout(p)\<close>: the probability is checked by the constructor.\<close>
  "nn_Dropout p = (if p < 0 \<or> 1 < p then Inl ValueError else Inr p)"

definition dropout :: "real \<Rightarrow> bool \<Rightarrow> (nat list \<Rightarrow> bool) \<Rightarrow> tensor \<Rightarrow> tensor" where
  \<comment> \<open>Dropout with probability \<open>p\<close>. Outside training it is the identity. In training
      the elements that the random draw \<open>keep\<close> selects are scaled by \<open>1 / (1 - p)\<close> and
      the others are 0; with \<open>p = 0\<close> every element is kept, with \<open>p = 1\<close> none.\<close>
  "dropout p training keep x =
     (if training
      then x\<lparr>elem := (\<lambda>i. if p < 1 \<and> (p \<le> 0 \<or> keep i) then elem x i / (1 - p) else 0)\<rparr>
      else x)"

record dropout_draws =
  \<comment> \<open>the random draws of one forward pass, one per dropout site\<close>
  keep_in :: "nat list \<Rightarrow> bool"
  keep_attn :: "nat list \<Rightarrow> bool"
  keep_resid :: "nat list \<Rightarrow> bool"
  keep_ff :: "nat list \<Rightarrow> bool"

type_synonym layer = "tensor \<Rightarrow> error + tensor"

record Module =
  \<comment> \<open>\<open>nn.Module\<close>: the flag that \<open>model.train()\<close> and \<open>model.eval()\<close> set\<close>
  training :: bool

section \<open>CausalSelfAttention\<close>

record CausalSelfAttention = Module +
  key :: Linear
  query :: Linear
  value_lin :: Linear
  attn_drop :: real
  resid_drop :: real
  proj_lin :: Linear
  n_head :: int

definition CausalSelfAttention_init ::
  "int \<Rightarrow> int \<Rightarrow> real \<Rightarrow> real \<Rightarrow> int \<Rightarrow> linear_params \<Rightarrow> linear_params \<Rightarrow> linear_params
     \<Rightarrow> linear_params \<Rightarrow> error + CausalSelfAttention" where
  \<comment> \<open>\<open>__init__(n_embd, n_head, attn_pdrop, resid_pdrop, block_size)\<close>. The remainder
      \<open>n_embd % n_head\<close> raises for \<open>n_head = 0\<close>; otherwise it is HOL's \<open>mod\<close> (both
      take the sign of the divisor). A new module is in training mode.\<close>
  "CausalSelfAttention_init n_embd nh attn_pdrop resid_pdrop block_size pk pq pv pp =
     (if nh = 0 then Inl ZeroDivisionError
      else if n_embd mod nh \<noteq> 0 then Inl AssertionError
      else
        ebind (nn_Linear n_embd n_embd True pk) (\<lambda>k.
        ebind (nn_Linear n_embd n_embd True pq) (\<lambda>q.
        ebind (nn_Linear n_embd n_embd True pv) (\<lambda>v.
        ebind (nn_Dropout attn_pdrop) (\<lambda>ad.
        ebind (nn_Dropout resid_pdrop) (\<lambda>rd.
        ebind (nn_Linear n_embd n_embd True pp) (\<lambda>p.
        Inr \<lparr>training = True, key = k, query = q, value_lin = v, attn_drop = ad,
             resid_drop = rd, proj_lin = p, n_head = nh\<rparr>)))))))"

definition split_heads :: "nat \<Rightarrow> nat \<Rightarrow> nat \<Rightarrow> int \<Rightarrow> tensor \<Rightarrow> error + tensor" where
  \<comment> \<open>\<open>t.view(B, T, n_head, C // n_head).transpose(1, 2)\<close> on the output \<open>t\<close>, of shape
      \<open>[B, T, out]\<close>, of a \<open>Linear\<close>. \<open>C // n_head\<close> raises for \<open>n_head = 0\<close>; the view
      needs non-negative sizes and as many elements as \<open>t\<close> has.\<close>
  "split_heads B T C nh t =
     (if nh = 0 then Inl ZeroDivisionError
      else
        let hs = int C div nh in
        if nh < 0 \<or> hs < 0 \<or> B * T * nat nh * nat hs \<noteq> prod_list (shape t)
        then Inl RuntimeError
        else Inr \<lparr>shape = [B, nat nh, T, nat hs],
                  elem = (\<lambda>i. case i of
                            [b, h, t', d] \<Rightarrow> elem t [b, t', h * nat hs + d]
                          | _ \<Rightarrow> 0)\<rparr>)"

fun unflatten :: "nat list \<Rightarrow> nat \<Rightarrow> nat list" where
  \<comment> \<open>the multi-index, in a tensor of the given shape, of the element at a flat offset\<close>
  "unflatten [] k = []"
| "unflatten (d # ds) k = (k div prod_list ds) # unflatten ds (k mod prod_list ds)"

definition view_mask :: "nat \<Rightarrow> tensor \<Rightarrow> error + tensor" where
  \<comment> \<open>\<open>mask.view(B, 1, 1, -1)\<close>: the last size is inferred, so \<open>B\<close> must be positive and
      divide the number of elements.\<close>
  "view_mask B m =
     (let M = prod_list (shape m) in
      if B = 0 \<or> M mod B \<noteq> 0 then Inl RuntimeError
      else Inr \<lparr>shape = [B, 1, 1, M div B],
                elem = (\<lambda>i. case i of
                          [b, u, v, j] \<Rightarrow> elem m (unflatten (shape m) (b * (M div B) + j))
                        | _ \<Rightarrow> 0)\<rparr>)"

definition matmul_qk :: "tensor \<Rightarrow> tensor \<Rightarrow> tensor" where
  \<comment> \<open>\<open>q @ k.transpose(-2, -1)\<close> for \<open>q\<close> and \<open>k\<close> of the same shape \<open>[B, nh, T, hs]\<close>\<close>
  "matmul_qk q k =
     \<lparr>shape = butlast (shape q) @ [shape k ! 2],
      elem = (\<lambda>i. case i of
                [b, h, r, c] \<Rightarrow> (\<Sum>d<last (shape q). elem q [b, h, r, d] * elem k [b, h, c, d])
              | _ \<Rightarrow> 0)\<rparr>"

definition masked_fill :: "tensor \<Rightarrow> tensor \<Rightarrow> real \<Rightarrow> error + tensor" where
  \<comment> \<open>\<open>att.masked_fill(mask == 0, v)\<close>: the two tensors are broadcast together.\<close>
  "masked_fill att m v =
     (case broadcast_shapes (shape att) (shape m) of
        None \<Rightarrow> Inl RuntimeError
      | Some sh \<Rightarrow>
          Inr \<lparr>shape = sh,
               elem = (\<lambda>i. if elem m (bindex (shape m) i) = 0 then v
                           else elem att (bindex (shape att) i))\<rparr>)"

definition softmax_last :: "tensor \<Rightarrow> tensor" where
  \<comment> \<open>\<open>F.softmax(t, dim=-1)\<close>\<close>
  "softmax_last t =
     t\<lparr>elem := (\<lambda>i. exp (elem t i) / (\<Sum>j<last (shape t). exp (elem t (butlast i @ [j]))))\<rparr>"

definition matmul_av :: "tensor \<Rightarrow> tensor \<Rightarrow> error + tensor" where
  \<comment> \<open>\<open>att @ v\<close> for \<open>att\<close> of shape \<open>[B, nh, T, L]\<close> and \<open>v\<close> of shape \<open>[B, nh, L', hs]\<close>:
      the inner sizes \<open>L\<close> and \<open>L'\<close> must agree.\<close>
  "matmul_av att v =
     (case (shape att, shape v) of
        ([B, nh, T, L], [B', nh', L', hs]) \<Rightarrow>
          if B = B' \<and> nh = nh' \<and> L = L'
          then Inr \<lparr>shape = [B, nh, T, hs],
                    elem = (\<lambda>i. case i of
                              [b, h, r, d] \<Rightarrow> (\<Sum>j<L. elem att [b, h, r, j] * elem v [b, h, j, d])
                            | _ \<Rightarrow> 0)\<rparr>
          else Inl RuntimeError
      | _ \<Rightarrow> Inl RuntimeError)"

definition merge_heads :: "nat \<Rightarrow> nat \<Rightarrow> nat \<Rightarrow> tensor \<Rightarrow> error + tensor" where
  \<comment> \<open>\<open>y.transpose(1, 2).contiguous().view(B, T, C)\<close> for \<open>y\<close> of shape \<open>[B, nh, T, hs]\<close>\<close>
  "merge_heads B T C y =
     (if B * T * C \<noteq> prod_list (shape y) then Inl RuntimeError
      else Inr \<lparr>shape = [B, T, C],
                elem = (\<lambda>i. case i of
                          [b, t, c] \<Rightarrow> elem y [b, c div last (shape y), t, c mod last (shape y)]
                        | _ \<Rightarrow> 0)\<rparr>)"

definition CausalSelfAttention_forward ::
  "CausalSelfAttention \<Rightarrow> dropout_draws \<Rightarrow> tensor \<Rightarrow> tensor \<Rightarrow> error + tensor" where
  \<comment> \<open>\<open>forward(x, mask)\<close>. \<open>B, T, C = x.size()\<close> needs rank 3; \<open>1.0 / math.sqrt(hs)\<close> raises
      for a head size of 0.\<close>
  "CausalSelfAttention_forward a dr x msk =
     (case shape x of
        [B, T, C] \<Rightarrow>
          ebind (Linear_forward (key a) x) (\<lambda>kx.
          ebind (split_heads B T C (n_head a) kx) (\<lambda>k.
          ebind (Linear_forward (query a) x) (\<lambda>qx.
          ebind (split_heads B T C (n_head a) qx) (\<lambda>q.
          ebind (Linear_forward (value_lin a) x) (\<lambda>vx.
          ebind (split_heads B T C (n_head a) vx) (\<lambda>v.
          ebind (view_mask B msk) (\<lambda>msk.
          let qk = matmul_qk q k in
          if last (shape k) = 0 then Inl ZeroDivisionError
          else
            let att = tmap (\<lambda>u. u * (1 / sqrt (real (last (shape k))))) qk in
            ebind (masked_fill att msk (- (10 ^ 10))) (\<lambda>att.
            let att = softmax_last att;
                att = dropout (attn_drop a) (training a) (keep_attn dr) att in
            ebind (matmul_av att v) (\<lambda>y.
            ebind (merge_heads B T C y) (\<lambda>y.
            ebind (Linear_forward (proj_lin a) y) (\<lambda>y.
            Inr (dropout (resid_drop a) (training a) (keep_resid dr) y))))))))))))
      | _ \<Rightarrow> Inl ValueError)"

definition linear_entry :: "Linear \<Rightarrow> tensor \<Rightarrow> nat \<Rightarrow> nat \<Rightarrow> nat \<Rightarrow> real" where
  \<comment> \<open>entry \<open>[b, t, c]\<close> of the layer's output on \<open>x\<close>\<close>
  "linear_entry l x b t c =
     (\<Sum>c'<in_features l. elem x [b, t, c'] * weight l c c') +
     (case bias l of None \<Rightarrow> 0 | Some bb \<Rightarrow> bb c)"

record attention_trace =
  scaled_scores :: tensor
  filled_scores :: tensor
  weights :: tensor
  head_values :: tensor

definition attention_weights ::
  "CausalSelfAttention \<Rightarrow> tensor \<Rightarrow> tensor \<Rightarrow> error + attention_trace" where
  \<comment> \<open>\<open>forward(x, mask)\<close> up to its softmax: the scaled scores \<open>att\<close>, \<open>att\<close> after
      \<open>masked_fill\<close>, \<open>att\<close> after the softmax (the attention weights, before the
      dropout), and \<open>v\<close>.\<close>
  "attention_weights a x msk =
     (case shape x of
        [B, T, C] \<Rightarrow>
          ebind (Linear_forward (key a) x) (\<lambda>kx.
          ebind (split_heads B T C (n_head a) kx) (\<lambda>k.
          ebind (Linear_forward (query a) x) (\<lambda>qx.
          ebind (split_heads B T C (n_head a) qx) (\<lambda>q.
          ebind (Linear_forward (value_lin a) x) (\<lambda>vx.
          ebind (split_heads B T C (n_head a) vx) (\<lambda>v.
          ebind (view_mask B msk) (\<lambda>msk.
          let qk = matmul_qk q k in
          if last (shape k) = 0 then Inl ZeroDivisionError
          else
            let att = tmap (\<lambda>u. u * (1 / sqrt (real (last (shape k))))) qk in
            ebind (masked_fill att msk (- (10 ^ 10))) (\<lambda>filled.
            Inr \<lparr>scaled_scores = att, filled_scores = filled,
                 weights = softmax_last filled, head_values = v\<rparr>))))))))
      | _ \<Rightarrow> Inl ValueError)"

definition attention_output ::
  "CausalSelfAttention \<Rightarrow> dropout_draws \<Rightarrow> tensor \<Rightarrow> attention_trace \<Rightarrow> error + tensor" where
  \<comment> \<open>the rest of \<open>forward(x, mask)\<close>, from the attention weights on\<close>
  "attention_output a dr x tr =
     (case shape x of
        [B, T, C] \<Rightarrow>
          let att = dropout (attn_drop a) (training a) (keep_attn dr) (weights tr) in
          ebind (matmul_av att (head_values tr)) (\<lambda>y.
          ebind (merge_heads B T C y) (\<lambda>y.
          ebind (Linear_forward (proj_lin a) y) (\<lambda>y.
          Inr (dropout (resid_drop a) (training a) (keep_resid dr) y))))
      | _ \<Rightarrow> Inl ValueError)"

section \<open>Block\<close>

text \<open>
  \<open>nn.LayerNorm\<close> and the \<open>nn.Sequential\<close> of the two convolutions, the activation and
  the dropout are library modules: the block holds them as functions on tensors. With a
  positive \<open>hidden_size\<close> their constructors do not fail.
\<close>

record Block = Module +
  num_convs :: int
  position_encoder :: position_encoding
  conv_ln :: layer
  convolution :: layer
  attn_ln :: layer
  attn :: CausalSelfAttention
  ff_ln :: layer
  ff_1 :: Linear
  ff_2 :: Linear

record block_layers =
  \<comment> \<open>what the constructor of a block takes from the library: the layers built there
      and the initial weights drawn at random\<close>
  l_conv_ln :: layer
  l_convolution :: layer
  l_attn_ln :: layer
  l_ff_ln :: layer
  p_key :: linear_params
  p_query :: linear_params
  p_value :: linear_params
  p_proj :: linear_params
  p_ff_1 :: linear_params
  p_ff_2 :: linear_params

definition Block_init :: "int \<Rightarrow> real \<Rightarrow> int \<Rightarrow> block_layers \<Rightarrow> error + Block" where
  \<comment> \<open>\<open>Block.__init__(hidden_size, resid_pdrop, num_convs, device)\<close>, in the order of
      the source: the position encoder (with the default \<open>seq_len\<close>), the dropout of the
      convolution stack, the attention, the two feed-forward layers.\<close>
  "Block_init hidden_size resid_pdrop n_convs ls =
     ebind (position_encoding_init hidden_size 1000) (\<lambda>pe.
     ebind (nn_Dropout resid_pdrop) (\<lambda>cd.
     ebind (CausalSelfAttention_init hidden_size 8 (1 / 10) resid_pdrop 128
              (p_key ls) (p_query ls) (p_value ls) (p_proj ls)) (\<lambda>a.
     ebind (nn_Linear hidden_size hidden_size True (p_ff_1 ls)) (\<lambda>f1.
     ebind (nn_Linear hidden_size hidden_size True (p_ff_2 ls)) (\<lambda>f2.
     Inr \<lparr>training = True, num_convs = n_convs, position_encoder = pe,
          conv_ln = l_conv_ln ls, convolution = l_convolution ls,
          attn_ln = l_attn_ln ls, attn = a, ff_ln = l_ff_ln ls,
          ff_1 = f1, ff_2 = f2\<rparr>)))))"

definition transpose12 :: "tensor \<Rightarrow> error + tensor" where
  \<comment> \<open>\<open>t.transpose(1, 2)\<close>: needs rank 3 or more.\<close>
  "transpose12 t =
     (case shape t of
        d0 # d1 # d2 # ds \<Rightarrow>
          Inr \<lparr>shape = d0 # d2 # d1 # ds,
               elem = (\<lambda>i. case i of
                         i0 # i1 # i2 # js \<Rightarrow> elem t (i0 # i2 # i1 # js)
                       | _ \<Rightarrow> 0)\<rparr>
      | _ \<Rightarrow> Inl IndexError)"

fun conv_loop :: "Block \<Rightarrow> nat \<Rightarrow> tensor \<times> tensor \<Rightarrow> error + tensor \<times> tensor" where
  \<comment> \<open>the loop \<open>for i in range(self.num_convs)\<close> on the pair \<open>(x, residual)\<close>\<close>
  "conv_loop blk 0 (x, residual) = Inr (x, residual)"
| "conv_loop blk (Suc n) (x, residual) =
     ebind (conv_ln blk x) (\<lambda>x.
     ebind (transpose12 x) (\<lambda>xt.
     ebind (convolution blk xt) (\<lambda>c.
     ebind (transpose12 c) (\<lambda>x.
     ebind (tadd_inplace x residual) (\<lambda>x.
     conv_loop blk n (x, x))))))"

definition attn_sublayer ::
  "Block \<Rightarrow> dropout_draws \<Rightarrow> tensor \<Rightarrow> tensor \<times> tensor \<Rightarrow> error + tensor \<times> tensor" where
  \<comment> \<open>the lines under \<open># multihead attn\<close>, on the pair \<open>(x, residual)\<close>\<close>
  "attn_sublayer blk dr msk xr =
     (case xr of (x, residual) \<Rightarrow>
        ebind (attn_ln blk x) (\<lambda>x.
        let x = dropout (1 / 10) (training blk) (keep_in dr) x in
        ebind (CausalSelfAttention_forward (attn blk) dr x msk) (\<lambda>a.
        ebind (tadd x a) (\<lambda>s.
        ebind (tadd s residual) (\<lambda>x.
        Inr (x, x))))))"

definition ff_sublayer :: "Block \<Rightarrow> dropout_draws \<Rightarrow> tensor \<times> tensor \<Rightarrow> error + tensor" where
  \<comment> \<open>the lines under \<open># feedforwards\<close>\<close>
  "ff_sublayer blk dr xr =
     (case xr of (x, residual) \<Rightarrow>
        ebind (ff_ln blk x) (\<lambda>x.
        let x = dropout (1 / 10) (training blk) (keep_ff dr) x in
        ebind (Linear_forward (ff_1 blk) x) (\<lambda>x.
        let x = tmap (max 0) x in
        ebind (Linear_forward (ff_2 blk) x) (\<lambda>x.
        tadd_inplace x residual))))"

definition Block_forward :: "Block \<Rightarrow> dropout_draws \<Rightarrow> tensor \<Rightarrow> tensor \<Rightarrow> error + tensor" where
  "Block_forward blk dr x msk =
     ebind (position_encoding_forward (position_encoder blk) x) (\<lambda>x.
     ebind (conv_loop blk (nat (num_convs blk)) (x, x)) (\<lambda>xr.
     ebind (attn_sublayer blk dr msk xr) (\<lambda>xr.
     ff_sublayer blk dr xr)))"

section \<open>QANetOutput\<close>

record QANetOutput =
  w1 :: Linear
  w2 :: Linear

definition QANetOutput_init :: "int \<Rightarrow> linear_params \<Rightarrow> linear_params \<Rightarrow> error + QANetOutput" where
  "QANetOutput_init n_embd p1 p2 =
     ebind (nn_Linear (n_embd * 2) 1 False p1) (\<lambda>l1.
     ebind (nn_Linear (n_embd * 2) 1 False p2) (\<lambda>l2.
     Inr \<lparr>w1 = l1, w2 = l2\<rparr>))"

definition cat_skips :: "tensor \<Rightarrow> bool" where
  \<comment> \<open>\<open>torch.cat\<close> leaves out an empty tensor of rank 1.\<close>
  "cat_skips t = (shape t = [0])"

definition cat2 :: "tensor \<Rightarrow> tensor \<Rightarrow> error + tensor" where
  \<comment> \<open>\<open>torch.cat((a, b), dim = 2)\<close>. The first tensor that is not left out needs a
      dimension 2 (\<open>IndexError\<close> otherwise); the other one, unless it is left out, must
      have the same rank and agree in every other size (\<open>RuntimeError\<close> otherwise). When
      both are left out the result is empty of rank 1.\<close>
  "cat2 a b =
     (if cat_skips a
      then (if cat_skips b then Inr a
            else if length (shape b) < 3 then Inl IndexError
            else Inr b)
      else if length (shape a) < 3 then Inl IndexError
      else if cat_skips b then Inr a
      else
        (case (shape a, shape b) of
           (a0 # a1 # a2 # as, b0 # b1 # b2 # bs) \<Rightarrow>
             if a0 = b0 \<and> a1 = b1 \<and> as = bs
             then Inr \<lparr>shape = a0 # a1 # (a2 + b2) # as,
                       elem = (\<lambda>i. case i of
                                 i0 # i1 # i2 # js \<Rightarrow>
                                   if i2 < a2 then elem a i else elem b (i0 # i1 # (i2 - a2) # js)
                               | _ \<Rightarrow> 0)\<rparr>
             else Inl RuntimeError
         | _ \<Rightarrow> Inl RuntimeError))"

fun squeeze_index :: "nat list \<Rightarrow> nat list \<Rightarrow> nat list" where
  \<comment> \<open>the index, in a tensor of the given shape, that an index of its squeezed form reads\<close>
  "squeeze_index [] i = []"
| "squeeze_index (d # ds) i =
     (if d = 1 then 0 # squeeze_index ds i
      else (case i of [] \<Rightarrow> [] | j # js \<Rightarrow> j # squeeze_index ds js))"

definition squeeze :: "tensor \<Rightarrow> tensor" where
  \<comment> \<open>\<open>t.squeeze()\<close> with no argument: every dimension of size 1 is removed.\<close>
  "squeeze t =
     \<lparr>shape = filter (\<lambda>d. d \<noteq> 1) (shape t),
      elem = (\<lambda>i. elem t (squeeze_index (shape t) i))\<rparr>"

type_synonym masked_softmax_fn = "tensor \<Rightarrow> tensor \<Rightarrow> bool \<Rightarrow> error + tensor"

definition QANetOutput_forward ::
  "QANetOutput \<Rightarrow> masked_softmax_fn \<Rightarrow> tensor \<Rightarrow> tensor \<Rightarrow> tensor \<Rightarrow> tensor
     \<Rightarrow> error + tensor \<times> tensor" where
  \<comment> \<open>\<open>forward(M1, M2, M3, mask)\<close>. \<open>masked_softmax\<close> is imported from \<open>util\<close>, which is
      not among the sources: it is a parameter here, called as the source calls it
      (logits, mask, \<open>log_softmax = True\<close>).\<close>
  "QANetOutput_forward out masked_softmax M1 M2 M3 msk =
     ebind (cat2 M1 M2) (\<lambda>x1.
     ebind (cat2 M2 M3) (\<lambda>x2.
     ebind (Linear_forward (w1 out) x1) (\<lambda>s1.
     ebind (masked_softmax (squeeze s1) msk True) (\<lambda>p1.
     ebind (Linear_forward (w2 out) x2) (\<lambda>s2.
     ebind (masked_softmax (squeeze s2) msk True) (\<lambda>p2.
     Inr (p1, p2)))))))"

subsection \<open>The masked softmax of the spec\<close>

definition masked_log_probability :: real where
  \<comment> \<open>Modelled from the spec: the log-probability that \<open>util.masked_softmax\<close> (not among
      the sources) gives an invalid position, "about minus infinity" in the spec, which
      names no number. The number here is the one that the source's own attention
      takes for minus infinity in its \<open>masked_fill\<close>.\<close>
  "masked_log_probability = - (10 ^ 10)"

definition masked_softmax :: masked_softmax_fn where
  \<comment> \<open>Modelled from the spec: \<open>util.masked_softmax\<close>, which is not among the sources.
      The spec (4.4 and the glossary): a softmax over the last dimension restricted to
      the valid positions (mask other than 0), in log-space when \<open>log_softmax\<close> is set;
      an invalid position receives probability about 0 (here 0), log-probability about
      minus infinity (here \<open>masked_log_probability\<close>). The logits and the mask are
      paired position by position under the library's broadcasting rule, as its
      elementwise operations pair their operands: logits that \<open>squeeze()\<close> has stripped
      of a dimension of size 1 still meet the mask.\<close>
  "masked_softmax logits msk log_softmax =
     (case broadcast_shapes (shape logits) (shape msk) of
        None \<Rightarrow> Inl RuntimeError
      | Some sh \<Rightarrow>
          Inr \<lparr>shape = sh,
               elem = (\<lambda>i.
                 let lg = (\<lambda>k. elem logits (bindex (shape logits) k));
                     valid = (\<lambda>k. elem msk (bindex (shape msk) k) \<noteq> 0);
                     n = (case sh of [] \<Rightarrow> 1 | d # ds \<Rightarrow> last sh);
                     z = (\<Sum>j<n. if valid (butlast i @ [j])
                                   then exp (lg (butlast i @ [j])) else 0)
                 in if valid i
                    then (if log_softmax then lg i - ln z else exp (lg i) / z)
                    else (if log_softmax then masked_log_probability else 0))\<rparr>)"

section \<open>The test driver\<close>

subsection \<open>Ensembling\<close>

text \<open>
  For one batch, the branch of \<open>main\<close> taken when \<open>args.ensemble_list\<close> is not empty.
  The models of \<open>models.py\<close> are not among the sources: the pairs \<open>(log_p1, log_p2)\<close>
  that the loaded checkpoints return for the batch, in the order of the list, are the
  input.
\<close>

fun ensemble_loop ::
  "tensor \<times> tensor \<Rightarrow> (tensor \<times> tensor) list \<Rightarrow> error + tensor \<times> tensor" where
  \<comment> \<open>\<open>for load_path in args.ensemble_list: ... avg_log_p1 = avg_log_p1 + log_p1;
      avg_log_p2 = avg_log_p2 + log_p2\<close>\<close>
  "ensemble_loop (avg_log_p1, avg_log_p2) [] = Inr (avg_log_p1, avg_log_p2)"
| "ensemble_loop (avg_log_p1, avg_log_p2) ((log_p1, log_p2) # rest) =
     ebind (tadd avg_log_p1 log_p1) (\<lambda>a1.
     ebind (tadd avg_log_p2 log_p2) (\<lambda>a2.
     ensemble_loop (a1, a2) rest))"

definition tdiv_scalar :: "tensor \<Rightarrow> nat \<Rightarrow> tensor" where
  \<comment> \<open>\<open>t /= n\<close> for a count \<open>n\<close>, which is not 0 in the branch modelled\<close>
  "tdiv_scalar t n = tmap (\<lambda>u. u / real n) t"

definition ensemble_batch ::
  "nat list \<Rightarrow> (tensor \<times> tensor) list \<Rightarrow> error + (tensor \<times> tensor) \<times> (tensor \<times> tensor)" where
  \<comment> \<open>from \<open>cw_idxs.size()\<close> and the models' outputs to
      \<open>((avg_log_p1, avg_log_p2), (p1, p2))\<close>: the averages that the loss reads and the
      distributions that \<open>util.discretize\<close> decodes\<close>
  "ensemble_batch cw_size outs =
     ebind (ensemble_loop (zeros cw_size, zeros cw_size) outs) (\<lambda>avg.
     let avg_log_p1 = tdiv_scalar (fst avg) (length outs);
         avg_log_p2 = tdiv_scalar (snd avg) (length outs)
     in Inr ((avg_log_p1, avg_log_p2), (tmap exp avg_log_p1, tmap exp avg_log_p2)))"

subsection \<open>The submission file\<close>

text \<open>
  A Python dictionary from strings to strings, as the list of its items in insertion
  order; a key occurs once. \<open>AList.update\<close> is the assignment \<open>d[k] = v\<close>: it replaces
  the value of a key in place and appends the item of a new key.
\<close>

type_synonym pydict = "(string \<times> string) list"

definition dict_update :: "pydict \<Rightarrow> pydict \<Rightarrow> pydict" where
  \<comment> \<open>\<open>d.update(other)\<close>\<close>
  "dict_update d other = fold (\<lambda>kv. AList.update (fst kv) (snd kv)) other d"

definition dict_getitem :: "pydict \<Rightarrow> string \<Rightarrow> error + string" where
  \<comment> \<open>\<open>d[k]\<close>\<close>
  "dict_getitem d k = (case map_of d k of None \<Rightarrow> Inl KeyError | Some v \<Rightarrow> Inr v)"

definition sorted_keys :: "pydict \<Rightarrow> string list" where
  \<comment> \<open>\<open>sorted(d)\<close>: the keys in ascending order; strings compare lexicographically by
      character code.\<close>
  "sorted_keys d = sort (map fst d)"

fun write_rows :: "pydict \<Rightarrow> string list \<Rightarrow> string list list \<Rightarrow> error + string list list" where
  \<comment> \<open>\<open>for uuid in ...: csv_writer.writerow([uuid, sub_dict[uuid]])\<close>; the state is the
      list of the rows written so far.\<close>
  "write_rows sub_dict [] rows = Inr rows"
| "write_rows sub_dict (uuid # uuids) rows =
     ebind (dict_getitem sub_dict uuid) (\<lambda>v.
     write_rows sub_dict uuids (rows @ [[uuid, v]]))"

definition write_submission :: "pydict \<Rightarrow> error + string list list" where
  \<comment> \<open>the rows of the file opened for writing (so empty at first): the header row, then
      the loop\<close>
  "write_submission sub_dict =
     write_rows sub_dict (sorted_keys sub_dict) [[''Id'', ''Predicted'']]"

definition collect_sub_dict :: "pydict list \<Rightarrow> pydict" where
  \<comment> \<open>\<open>sub_dict = {}\<close>, then \<open>sub_dict.update(uuid2pred)\<close> for the \<open>uuid2pred\<close> of each
      batch\<close>
  "collect_sub_dict batches = fold (\<lambda>uuid2pred d. dict_update d uuid2pred) batches []"

section \<open>Example inputs\<close>

text \<open>Concrete inputs at which the theorems below are instantiated.\<close>

definition zero_params :: linear_params where
  "zero_params = ((\<lambda>j c. 0), (\<lambda>j. 0))"

definition keep_all :: dropout_draws where
  "keep_all = \<lparr>keep_in = (\<lambda>i. True), keep_attn = (\<lambda>i. True), keep_resid = (\<lambda>i. True),
               keep_ff = (\<lambda>i. True)\<rparr>"

definition identity_layers :: block_layers where
  "identity_layers =
     \<lparr>l_conv_ln = Inr, l_convolution = Inr, l_attn_ln = Inr, l_ff_ln = Inr,
      p_key = zero_params, p_query = zero_params, p_value = zero_params,
      p_proj = zero_params, p_ff_1 = zero_params, p_ff_2 = zero_params\<rparr>"

definition ones :: "nat list \<Rightarrow> tensor" where
  "ones sh = \<lparr>shape = sh, elem = (\<lambda>i. 1)\<rparr>"

definition uniform_model :: "tensor \<times> tensor" where
  \<comment> \<open>the log-probabilities of a model that gives both of 2 positions probability 1/2\<close>
  "uniform_model =
     (\<lparr>shape = [1, 2], elem = (\<lambda>i. ln (1 / 2))\<rparr>, \<lparr>shape = [1, 2], elem = (\<lambda>i. ln (1 / 2))\<rparr>)"

definition skewed_model :: "tensor \<times> tensor" where
  \<comment> \<open>the log-probabilities of a model that gives position 0 probability 1/8 and
      position 1 probability 7/8\<close>
  "skewed_model =
     (\<lparr>shape = [1, 2], elem = (\<lambda>i. if last i = 0 then ln (1 / 8) else ln (7 / 8))\<rparr>,
      \<lparr>shape = [1, 2], elem = (\<lambda>i. if last i = 0 then ln (1 / 8) else ln (7 / 8))\<rparr>)"

definition example_batches :: "pydict list" where
  \<comment> \<open>the \<open>uuid2pred\<close> of two batches; the second repeats an id of the first\<close>
  "example_batches =
     [[(''b2'', ''Paris''), (''a1'', ''in 1066'')], [(''c3'', ''''), (''a1'', ''1066'')]]"

definition example_mask :: tensor where
  \<comment> \<open>two rows of 3 positions; the last position of row 0 is padding\<close>
  "example_mask =
     \<lparr>shape = [2, 3], elem = (\<lambda>i. if i = [0, 2] then 0 else 1)\<rparr>"

definition padded_mask :: tensor where
  \<comment> \<open>two rows of 5 positions; row 0 is \<open>[1, 1, 1, 0, 0]\<close>, row 1 has no padding\<close>
  "padded_mask =
     \<lparr>shape = [2, 5], elem = (\<lambda>i. if i = [0, 3] \<or> i = [0, 4] then 0 else 1)\<rparr>"

definition low_key_params :: linear_params where
  \<comment> \<open>a key projection with weights 0 and every bias \<open>- 200000\<close>\<close>
  "low_key_params = ((\<lambda>j c. 0), (\<lambda>j. - 200000))"

definition high_query_params :: linear_params where
  \<comment> \<open>a query projection with weights 0 and every bias \<open>200000\<close>\<close>
  "high_query_params = ((\<lambda>j c. 0), (\<lambda>j. 200000))"

definition saturated_attention :: CausalSelfAttention where
  \<comment> \<open>the module for \<open>n_embd = 4\<close>, \<open>n_head = 2\<close> with the key biases \<open>- 200000\<close>, the
      query biases \<open>200000\<close> and every other parameter 0\<close>
  "saturated_attention =
     \<lparr>training = True,
      key = \<lparr>in_features = 4, out_features = 4, weight = fst low_key_params,
             bias = Some (snd low_key_params)\<rparr>,
      query = \<lparr>in_features = 4, out_features = 4, weight = fst high_query_params,
               bias = Some (snd high_query_params)\<rparr>,
      value_lin = \<lparr>in_features = 4, out_features = 4, weight = fst zero_params,
                   bias = Some (snd zero_params)\<rparr>,
      attn_drop = 1 / 10, resid_drop = 1 / 10,
      proj_lin = \<lparr>in_features = 4, out_features = 4, weight = fst zero_params,
                  bias = Some (snd zero_params)\<rparr>,
      n_head = 2\<rparr>"

definition example_output :: QANetOutput where
  \<comment> \<open>the output layer for \<open>n_embd = 1\<close> with all weights 0\<close>
  "example_output =
     \<lparr>w1 = \<lparr>in_features = 2, out_features = 1, weight = fst zero_params, bias = None\<rparr>,
      w2 = \<lparr>in_features = 2, out_features = 1, weight = fst zero_params, bias = None\<rparr>\<rparr>"


section \<open>Properties: errors and broadcasting\<close>

lemma ebind_Inl [simp]: "ebind (Inl e) f = Inl e"
  by (simp add: ebind_def)

lemma ebind_Inr [simp]: "ebind (Inr x) f = f x"
  by (simp add: ebind_def)

lemma ebind_eq_Inr: "ebind m f = Inr y \<longleftrightarrow> (\<exists>x. m = Inr x \<and> f x = Inr y)"
  by (cases m) simp_all

lemma bdim_same [simp]: "bdim n n = Some n"
  by (simp add: bdim_def)

lemma bshape_same [simp]: "bshape sh sh = Some sh"
  by (induction sh) simp_all

lemma broadcast_shapes_same [simp]: "broadcast_shapes sh sh = Some sh"
  by (simp add: broadcast_shapes_def pad_shape_def)

lemma bindex_in_range: "in_range i sh \<Longrightarrow> bindex sh i = i"
proof -
  assume a: "in_range i sh"
  then have len: "length i = length sh" by (simp add: in_range_def list_all2_lengthD)
  have "map2 (\<lambda>d j. if d = 1 then 0 else j) sh i = i" using a unfolding in_range_def
    by (induction i sh rule: list_all2_induct) auto
  then show ?thesis by (simp add: bindex_def len)
qed

lemma broadcast_cols: "broadcast_shapes [r, w] [r, w'] = Some [r, w] \<longleftrightarrow> w' = w \<or> w' = 1"
  by (auto simp: broadcast_shapes_def pad_shape_def bdim_def)

lemma broadcast_col_row: "broadcast_shapes [s, 1] [m] = Some [s, m]"
  by (auto simp: broadcast_shapes_def pad_shape_def bdim_def)

lemma tbinop_Inr:
  "broadcast_shapes (shape a) (shape b) = Some sh \<Longrightarrow> tbinop f a b = Inr (bcast f sh a b)"
  by (simp add: tbinop_def)

lemma tbinop_Inl:
  "broadcast_shapes (shape a) (shape b) = None \<Longrightarrow> tbinop f a b = Inl RuntimeError"
  by (simp add: tbinop_def)

section \<open>Properties: position_encoding\<close>

lemma set_cols_shape:
  "shape t = [r, c] \<Longrightarrow> shape src = [r, w'] \<Longrightarrow>
   set_cols start t src =
     (if w' = (c + 1 - start) div 2 \<or> w' = 1 then Inr (assign_cols start t src)
      else Inl RuntimeError)"
  by (simp add: set_cols_def Let_def broadcast_cols)

lemma shape_tmap [simp]: "shape (tmap f t) = shape t"
  by (simp add: tmap_def)

lemma elem_tmap [simp]: "elem (tmap f t) i = f (elem t i)"
  by (simp add: tmap_def)

lemma shape_bcast [simp]: "shape (bcast f sh a b) = sh"
  by (simp add: bcast_def)

lemma shape_assign_cols [simp]: "shape (assign_cols start t src) = shape t"
  by (simp add: assign_cols_def)

lemma shape_zeros [simp]: "shape (zeros sh) = sh"
  by (simp add: zeros_def)

lemma shape_val: "shape (val n_embd) = [(nat n_embd + 1) div 2]"
  by (simp add: val_def arange_step2_def)

lemma shape_pos: "shape (unsqueeze 1 (arange s)) = [s, 1]"
  by (simp add: unsqueeze_def arange_def)

lemma pe_tmul: "tmul (unsqueeze 1 (arange (nat seq_len))) (val n_embd) = Inr (pe_pv n_embd seq_len)"
  unfolding tmul_def
  by (rule tbinop_Inr) (simp only: shape_pos shape_val broadcast_col_row)

lemma init_steps:
  assumes "0 \<le> seq_len" "0 < n_embd"
  shows "position_encoding_init n_embd seq_len =
     (if even n_embd \<or> n_embd = 1
      then Inr \<lparr>pos_encodings = unsqueeze 0 (pe_table n_embd seq_len)\<rparr>
      else Inl RuntimeError)"
proof -
  let ?s = "nat seq_len" and ?n = "nat n_embd"
  let ?pv = "pe_pv n_embd seq_len"
  let ?pe1 = "assign_cols 0 (zeros [?s, ?n]) (tmap sin ?pv)"
  have z: "torch_zeros [seq_len, n_embd] = Inr (zeros [?s, ?n])"
    using assms by (simp add: torch_zeros_def)
  have nz: "(n_embd = 0) = False" using assms by simp
  have shz: "shape (zeros [?s, ?n]) = [?s, ?n]" by simp
  have shpv: "shape (tmap f ?pv) = [?s, (?n + 1) div 2]" for f by simp
  have c0: "set_cols 0 (zeros [?s, ?n]) (tmap sin ?pv) = Inr ?pe1"
    by (subst set_cols_shape[OF shz shpv]) simp
  have shpe1: "shape ?pe1 = [?s, ?n]" by simp
  have w: "((?n + 1) div 2 = (?n + 1 - 1) div 2 \<or> (?n + 1) div 2 = 1) \<longleftrightarrow> even n_embd \<or> n_embd = 1"
  proof -
    define n where "n = nat n_embd"
    have n: "n_embd = int n" "0 < n" using assms(2) by (simp_all add: n_def)
    have "((n + 1) div 2 = (n + 1 - 1) div 2 \<or> (n + 1) div 2 = 1) \<longleftrightarrow> even n \<or> n = 1"
      using n(2) by presburger
    then show ?thesis by (simp add: n)
  qed
  have c1: "set_cols 1 ?pe1 (tmap cos ?pv) =
      (if even n_embd \<or> n_embd = 1 then Inr (assign_cols 1 ?pe1 (tmap cos ?pv)) else Inl RuntimeError)"
    by (subst set_cols_shape[OF shpe1 shpv]) (simp only: w)
  show ?thesis
  proof (cases "even n_embd \<or> n_embd = 1")
    case True
    then have c1': "set_cols 1 ?pe1 (tmap cos ?pv) = Inr (assign_cols 1 ?pe1 (tmap cos ?pv))"
      by (simp only: c1 if_True)
    show ?thesis
      unfolding position_encoding_init_def Let_def
      by (simp only: z nz pe_tmul c0 c1' ebind_Inr if_False True if_True)
  next
    case False
    then have c1': "set_cols 1 ?pe1 (tmap cos ?pv) = Inl RuntimeError"
      by (simp only: c1 if_False)
    show ?thesis
      unfolding position_encoding_init_def Let_def
      by (simp only: z nz pe_tmul c0 c1' ebind_Inr ebind_Inl if_False False)
  qed
qed

lemma init_neg: "n_embd < 0 \<or> seq_len < 0 \<Longrightarrow> position_encoding_init n_embd seq_len = Inl RuntimeError"
  by (auto simp: position_encoding_init_def torch_zeros_def)

lemma init_zero: "0 \<le> seq_len \<Longrightarrow> position_encoding_init 0 seq_len = Inl ZeroDivisionError"
  by (auto simp: position_encoding_init_def torch_zeros_def)

lemma init_Inr_iff:
  "position_encoding_init n_embd seq_len = Inr pe \<longleftrightarrow>
     0 \<le> seq_len \<and> 0 < n_embd \<and> (even n_embd \<or> n_embd = 1) \<and>
     pe = \<lparr>pos_encodings = unsqueeze 0 (pe_table n_embd seq_len)\<rparr>"
proof (cases "0 \<le> seq_len \<and> 0 < n_embd")
  case True
  then show ?thesis by (auto simp: init_steps)
next
  case False
  then consider "n_embd < 0 \<or> seq_len < 0" | "0 \<le> seq_len" "n_embd = 0" by linarith
  then show ?thesis
  proof cases
    case 1 then show ?thesis using init_neg[OF 1] by auto
  next
    case 2 then show ?thesis using init_zero[OF 2(1)] by auto
  qed
qed

lemma pv_elem:
  assumes "p < nat seq_len" "k < (nat n_embd + 1) div 2"
  shows "elem (pe_pv n_embd seq_len) [p, k] =
         real p * exp (real (2 * k) * - (ln 10000 / real_of_int n_embd))"
proof -
  have 1: "bindex [nat seq_len, 1] [p, k] = [p, 0]" using assms(1) by (auto simp: bindex_def)
  have 2: "bindex [(nat n_embd + 1) div 2] [p, k] = [k]" using assms(2) by (auto simp: bindex_def)
  show ?thesis
    by (simp add: bcast_def shape_pos shape_val 1 2 del: One_nat_def)
       (simp add: unsqueeze_def arange_def val_def arange_step2_def)
qed

lemma elem_assign_cols:
  "elem (assign_cols start t src) [p, j] =
     (if start \<le> j \<and> even (j - start) then elem src (bindex (shape src) [p, (j - start) div 2])
      else elem t [p, j])"
  by (simp add: assign_cols_def)

lemma elem_unsqueeze0: "elem (unsqueeze 0 t) (i0 # i) = elem t i"
  by (simp add: unsqueeze_def)

lemma table_elem_even:
  assumes "p < nat seq_len" "c < nat n_embd" "even c"
  shows "elem (unsqueeze 0 (pe_table n_embd seq_len)) [0, p, c] =
         sin (real p * exp (real c * - (ln 10000 / real_of_int n_embd)))"
proof -
  have "c div 2 < (n + 1) div 2" if "c < n" for n :: nat using that by presburger
  then have k: "c div 2 < (nat n_embd + 1) div 2" using assms(2) by blast
  have b: "bindex [nat seq_len, (nat n_embd + 1) div 2] [p, c div 2] = [p, c div 2]"
    using assms(1) k by (intro bindex_in_range) (simp add: in_range_def)
  have no: "(1 \<le> c \<and> even (c - 1)) = False" using assms(3) by presburger
  have yes: "(0 \<le> c \<and> even c) = True" using assms(3) by simp
  have c2: "2 * (c div 2) = c" using assms(3) by presburger
  have "elem (unsqueeze 0 (pe_table n_embd seq_len)) [0, p, c] =
        sin (elem (pe_pv n_embd seq_len) [p, c div 2])"
    by (simp only: elem_unsqueeze0 elem_assign_cols no yes if_False if_True shape_tmap
          shape_bcast elem_tmap b diff_zero)
  also have "\<dots> = sin (real p * exp (real (2 * (c div 2)) * - (ln 10000 / real_of_int n_embd)))"
    by (simp only: pv_elem[OF assms(1) k])
  finally show ?thesis by (simp only: c2)
qed

lemma table_elem_odd:
  assumes "p < nat seq_len" "c < nat n_embd" "odd c"
  shows "elem (unsqueeze 0 (pe_table n_embd seq_len)) [0, p, c] =
         cos (real p * exp (real (c - 1) * - (ln 10000 / real_of_int n_embd)))"
proof -
  have "(c - 1) div 2 < (n + 1) div 2" if "c < n" for n :: nat using that by presburger
  then have k: "(c - 1) div 2 < (nat n_embd + 1) div 2" using assms(2) by blast
  have b: "bindex [nat seq_len, (nat n_embd + 1) div 2] [p, (c - 1) div 2] = [p, (c - 1) div 2]"
    using assms(1) k by (intro bindex_in_range) (simp add: in_range_def)
  have yes: "(1 \<le> c \<and> even (c - 1)) = True" using assms(3) by presburger
  have c2: "2 * ((c - 1) div 2) = c - 1" using assms(3) by presburger
  have "elem (unsqueeze 0 (pe_table n_embd seq_len)) [0, p, c] =
        cos (elem (pe_pv n_embd seq_len) [p, (c - 1) div 2])"
    by (simp only: elem_unsqueeze0 elem_assign_cols yes if_True shape_tmap
          shape_bcast elem_tmap b)
  also have "\<dots> = cos (real p * exp (real (2 * ((c - 1) div 2)) * - (ln 10000 / real_of_int n_embd)))"
    by (simp only: pv_elem[OF assms(1) k])
  finally show ?thesis by (simp only: c2)
qed

lemma table_shape: "shape (unsqueeze 0 (pe_table n_embd seq_len)) = [1, nat seq_len, nat n_embd]"
  by (simp add: unsqueeze_def)

lemma broadcast_shapes3:
  "broadcast_shapes [a0, a1, a2] [b0, b1, b2] =
     (case bdim a0 b0 of None \<Rightarrow> None
      | Some d0 \<Rightarrow> (case bdim a1 b1 of None \<Rightarrow> None
          | Some d1 \<Rightarrow> (case bdim a2 b2 of None \<Rightarrow> None | Some d2 \<Rightarrow> Some [d0, d1, d2])))"
  by (simp add: broadcast_shapes_def pad_shape_def split: option.splits)

lemma forward_rank3:
  assumes "shape (pos_encodings pe) = [1, s, n]" "shape x = [B, T, C]"
  shows "position_encoding_forward pe x =
         tadd x ((pos_encodings pe)\<lparr>shape := [1, min T s, n]\<rparr>)"
  using assms by (simp add: position_encoding_forward_def slice_dim1_def)

lemma forward_ok:
  assumes "shape (pos_encodings pe) = [1, s, n]" "shape x = [B, T, n]" "T \<le> s"
  shows "\<exists>y. position_encoding_forward pe x = Inr y \<and> shape y = [B, T, n] \<and>
           (\<forall>b t c. b < B \<longrightarrow> t < T \<longrightarrow> c < n \<longrightarrow>
              elem y [b, t, c] = elem x [b, t, c] + elem (pos_encodings pe) [0, t, c])"
proof -
  let ?sl = "(pos_encodings pe)\<lparr>shape := [1, min T s, n]\<rparr>"
  have m: "min T s = T" using assms(3) by simp
  have bs: "broadcast_shapes (shape x) (shape ?sl) = Some [B, T, n]"
    by (simp add: assms(2) m broadcast_shapes3 bdim_def)
  have f: "position_encoding_forward pe x = Inr (bcast (\<lambda>u v. u + v) [B, T, n] x ?sl)"
    unfolding forward_rank3[OF assms(1,2)] tadd_def by (rule tbinop_Inr[OF bs])
  have e: "elem (bcast (\<lambda>u v. u + v) [B, T, n] x ?sl) [b, t, c] =
           elem x [b, t, c] + elem (pos_encodings pe) [0, t, c]"
    if "b < B" "t < T" "c < n" for b t c
  proof -
    have 1: "bindex (shape x) [b, t, c] = [b, t, c]"
      using that by (intro bindex_in_range) (simp add: in_range_def assms(2))
    have 2: "bindex (shape ?sl) [b, t, c] = [0, t, c]"
      using that by (auto simp: bindex_def m)
    show ?thesis by (simp only: bcast_def tensor.simps 1 2) simp
  qed
  show ?thesis using f e by simp
qed

lemma forward_too_long_gen:
  assumes "shape (pos_encodings pe) = [1, s, n]" "shape x = [B, T, C]" "s < T" "2 \<le> s"
  shows "position_encoding_forward pe x = Inl RuntimeError"
proof -
  let ?sl = "(pos_encodings pe)\<lparr>shape := [1, min T s, n]\<rparr>"
  have m: "min T s = s" using assms(3) by simp
  have "bdim T s = None" using assms(3,4) by (simp add: bdim_def)
  then have bs: "broadcast_shapes (shape x) (shape ?sl) = None"
    by (simp add: assms(2) m broadcast_shapes3 split: option.splits)
  show ?thesis
    unfolding forward_rank3[OF assms(1,2)] tadd_def by (rule tbinop_Inl[OF bs])
qed

text \<open>
  Claim C4. When the constructor returns, the table has shape \<open>[1, seq_len, n_embd]\<close>;
  at every position \<open>p\<close> its entry at an even feature index \<open>2 i\<close> is
  \<open>sin (p * exp (2 i * (- ln 10000 / n_embd)))\<close> and its entry at an odd feature index
  \<open>2 i + 1\<close> is \<open>cos (p * exp (2 i * (- ln 10000 / n_embd)))\<close>; and for an input of
  shape \<open>[B, T, n_embd]\<close> with \<open>T\<close> at most \<open>seq_len\<close>, \<open>forward\<close> returns a tensor of the
  same shape whose entry at \<open>[b, t, c]\<close> is the input's entry plus the table's entry at
  row \<open>t\<close> and column \<open>c\<close>. Over the reals the match with the formula is exact.
\<close>

theorem position_encoding_table:
  assumes "position_encoding_init n_embd seq_len = Inr pe"
  shows "shape (pos_encodings pe) = [1, nat seq_len, nat n_embd] \<and>
    (\<forall>p i. p < nat seq_len \<longrightarrow> 2 * i < nat n_embd \<longrightarrow>
       elem (pos_encodings pe) [0, p, 2 * i] =
         sin (real p * exp (real (2 * i) * - (ln 10000 / real_of_int n_embd)))) \<and>
    (\<forall>p i. p < nat seq_len \<longrightarrow> 2 * i + 1 < nat n_embd \<longrightarrow>
       elem (pos_encodings pe) [0, p, 2 * i + 1] =
         cos (real p * exp (real (2 * i) * - (ln 10000 / real_of_int n_embd)))) \<and>
    (\<forall>x B T. shape x = [B, T, nat n_embd] \<longrightarrow> T \<le> nat seq_len \<longrightarrow>
       (\<exists>y. position_encoding_forward pe x = Inr y \<and> shape y = [B, T, nat n_embd] \<and>
          (\<forall>b t c. b < B \<longrightarrow> t < T \<longrightarrow> c < nat n_embd \<longrightarrow>
             elem y [b, t, c] = elem x [b, t, c] + elem (pos_encodings pe) [0, t, c])))"
proof -
  have pe: "pos_encodings pe = unsqueeze 0 (pe_table n_embd seq_len)"
    using assms by (simp add: init_Inr_iff)
  have sh: "shape (pos_encodings pe) = [1, nat seq_len, nat n_embd]"
    by (simp only: pe table_shape)
  have ev: "elem (pos_encodings pe) [0, p, 2 * i] =
         sin (real p * exp (real (2 * i) * - (ln 10000 / real_of_int n_embd)))"
    if "p < nat seq_len" "2 * i < nat n_embd" for p i
    unfolding pe using table_elem_even[OF that] by simp
  have od: "elem (pos_encodings pe) [0, p, 2 * i + 1] =
         cos (real p * exp (real (2 * i) * - (ln 10000 / real_of_int n_embd)))"
    if "p < nat seq_len" "2 * i + 1 < nat n_embd" for p i
    unfolding pe using table_elem_odd[OF that] by simp
  show ?thesis using sh ev od forward_ok[OF sh] by blast
qed

theorem position_encoding_table_witness:
  "\<exists>pe. position_encoding_init 4 1000 = Inr pe \<and>
     shape (pos_encodings pe) = [1, 1000, 4] \<and>
     elem (pos_encodings pe) [0, 7, 2] = sin (7 * exp (2 * - (ln 10000 / 4))) \<and>
     elem (pos_encodings pe) [0, 7, 3] = cos (7 * exp (2 * - (ln 10000 / 4))) \<and>
     (\<exists>y. position_encoding_forward pe (zeros [2, 5, 4]) = Inr y \<and> shape y = [2, 5, 4] \<and>
        elem y [1, 4, 3] = elem (zeros [2, 5, 4]) [1, 4, 3] + elem (pos_encodings pe) [0, 4, 3])"
proof -
  obtain pe where pe: "position_encoding_init 4 1000 = Inr pe"
    by (simp add: init_Inr_iff)
  note t = position_encoding_table[OF pe]
  have 1: "shape (pos_encodings pe) = [1, 1000, 4]" using t by simp
  have 2: "elem (pos_encodings pe) [0, 7, 2] = sin (7 * exp (2 * - (ln 10000 / 4)))"
    using t[THEN conjunct2, THEN conjunct1, rule_format, of 7 1] by simp
  have 3: "elem (pos_encodings pe) [0, 7, 3] = cos (7 * exp (2 * - (ln 10000 / 4)))"
    using t[THEN conjunct2, THEN conjunct2, THEN conjunct1, rule_format, of 7 1] by simp
  have "\<exists>y. position_encoding_forward pe (zeros [2, 5, 4]) = Inr y \<and> shape y = [2, 5, 4] \<and>
          (\<forall>b t c. b < 2 \<longrightarrow> t < 5 \<longrightarrow> c < nat 4 \<longrightarrow>
             elem y [b, t, c] = elem (zeros [2, 5, 4]) [b, t, c] + elem (pos_encodings pe) [0, t, c])"
    using t[THEN conjunct2, THEN conjunct2, THEN conjunct2, rule_format, of "zeros [2, 5, 4]" 2 5]
    by simp
  then obtain y where y: "position_encoding_forward pe (zeros [2, 5, 4]) = Inr y" "shape y = [2, 5, 4]"
    "\<forall>b t c. b < 2 \<longrightarrow> t < 5 \<longrightarrow> c < nat 4 \<longrightarrow>
             elem y [b, t, c] = elem (zeros [2, 5, 4]) [b, t, c] + elem (pos_encodings pe) [0, t, c]"
    by blast
  have 4: "elem y [1, 4, 3] = elem (zeros [2, 5, 4]) [1, 4, 3] + elem (pos_encodings pe) [0, 4, 3]"
    using y(3)[rule_format, of 1 4 3] by simp
  show ?thesis using pe 1 2 3 y(1,2) 4 by blast
qed

text \<open>
  Claim C5, as amended. For a table built with \<open>seq_len\<close> at least 2 (the default is
  1000) and an input of shape \<open>[B, T, C]\<close> with \<open>T\<close> greater than \<open>seq_len\<close>, \<open>forward\<close>
  raises: the slice is clamped to \<open>seq_len\<close> rows without an error, and the addition
  then fails with the tensor library's size-mismatch error, a \<open>RuntimeError\<close>. No
  result is returned, so nothing is truncated.
\<close>

theorem position_encoding_too_long:
  assumes "position_encoding_init n_embd seq_len = Inr pe"
      and "shape x = [B, T, C]" and "nat seq_len < T" and "2 \<le> seq_len"
  shows "position_encoding_forward pe x = Inl RuntimeError"
proof -
  have "pos_encodings pe = unsqueeze 0 (pe_table n_embd seq_len)"
    using assms(1) by (simp add: init_Inr_iff)
  then have sh: "shape (pos_encodings pe) = [1, nat seq_len, nat n_embd]"
    by (simp only: table_shape)
  show ?thesis using forward_too_long_gen[OF sh assms(2,3)] assms(4) by simp
qed

theorem position_encoding_too_long_witness:
  "\<exists>pe. position_encoding_init 4 1000 = Inr pe \<and> shape (zeros [2, 1001, 4]) = [2, 1001, 4] \<and>
     nat 1000 < (1001::nat) \<and> (2::int) \<le> 1000 \<and>
     position_encoding_forward pe (zeros [2, 1001, 4]) = Inl RuntimeError"
proof -
  obtain pe where pe: "position_encoding_init 4 1000 = Inr pe"
    by (simp add: init_Inr_iff)
  have "position_encoding_forward pe (zeros [2, 1001, 4]) = Inl RuntimeError"
    by (rule position_encoding_too_long[OF pe, where B = 2 and T = 1001 and C = 4]) simp_all
  then show ?thesis using pe by simp
qed

text \<open>
  The claim C5 as stated fails: with the default table, an input of 1001 positions
  raises a \<open>RuntimeError\<close>, not an index error; and with a table of one row, an input
  of 3 positions raises nothing, the single row being broadcast over the positions.
\<close>

theorem position_encoding_index_error_counterexample:
  "position_encoding_init 4 1000 = Inr \<lparr>pos_encodings = unsqueeze 0 (pe_table 4 1000)\<rparr> \<and>
   position_encoding_forward \<lparr>pos_encodings = unsqueeze 0 (pe_table 4 1000)\<rparr>
     (zeros [2, 1001, 4]) = Inl RuntimeError \<and>
   position_encoding_forward \<lparr>pos_encodings = unsqueeze 0 (pe_table 4 1000)\<rparr>
     (zeros [2, 1001, 4]) \<noteq> Inl IndexError \<and>
   position_encoding_init 4 1 = Inr \<lparr>pos_encodings = unsqueeze 0 (pe_table 4 1)\<rparr> \<and>
   \<not> isl (position_encoding_forward \<lparr>pos_encodings = unsqueeze 0 (pe_table 4 1)\<rparr>
            (zeros [2, 3, 4])) \<and>
   shape (projr (position_encoding_forward \<lparr>pos_encodings = unsqueeze 0 (pe_table 4 1)\<rparr>
                   (zeros [2, 3, 4]))) = [2, 3, 4]"
proof -
  let ?pe = "\<lparr>pos_encodings = unsqueeze 0 (pe_table 4 1000)\<rparr>"
  let ?pe1 = "\<lparr>pos_encodings = unsqueeze 0 (pe_table 4 1)\<rparr>"
  have pe: "position_encoding_init 4 1000 = Inr ?pe"
    by (simp add: init_Inr_iff)
  have sh: "shape (pos_encodings ?pe) = [1, 1000, 4]"
    by (simp add: unsqueeze_def)
  have a: "position_encoding_forward ?pe (zeros [2, 1001, 4]) = Inl RuntimeError"
    by (rule forward_too_long_gen[OF sh, where B = 2 and T = 1001 and C = 4]) simp_all
  have pe1: "position_encoding_init 4 1 = Inr ?pe1"
    by (simp add: init_Inr_iff)
  have sh1: "shape (pos_encodings ?pe1) = [1, 1, 4]"
    by (simp add: unsqueeze_def)
  have "position_encoding_forward ?pe1 (zeros [2, 3, 4]) =
        tadd (zeros [2, 3, 4]) ((pos_encodings ?pe1)\<lparr>shape := [1, min 3 1, 4]\<rparr>)"
    by (rule forward_rank3[OF sh1, where B = 2 and T = 3 and C = 4]) simp
  also have "\<dots> = Inr (bcast (\<lambda>u v. u + v) [2, 3, 4] (zeros [2, 3, 4])
                        ((pos_encodings ?pe1)\<lparr>shape := [1, min 3 1, 4]\<rparr>))"
    unfolding tadd_def by (rule tbinop_Inr) (simp add: broadcast_shapes3 bdim_def)
  finally have b: "position_encoding_forward ?pe1 (zeros [2, 3, 4]) =
      Inr (bcast (\<lambda>u v. u + v) [2, 3, 4] (zeros [2, 3, 4])
             ((pos_encodings ?pe1)\<lparr>shape := [1, min 3 1, 4]\<rparr>))" .
  show ?thesis unfolding a b using pe pe1 by simp
qed

section \<open>Properties: CausalSelfAttention\<close>

lemma ebind_eq_Inl: "ebind m f = Inl e \<longleftrightarrow> m = Inl e \<or> (\<exists>x. m = Inr x \<and> f x = Inl e)"
  by (cases m) simp_all

lemma nn_Linear_Inr:
  "0 \<le> n_in \<Longrightarrow> 0 \<le> n_out \<Longrightarrow>
   nn_Linear n_in n_out wb ps =
     Inr \<lparr>in_features = nat n_in, out_features = nat n_out, weight = fst ps,
          bias = (if wb then Some (snd ps) else None)\<rparr>"
  by (simp add: nn_Linear_def)

lemma nn_Linear_Inl: "n_in < 0 \<or> n_out < 0 \<Longrightarrow> nn_Linear n_in n_out wb ps = Inl RuntimeError"
  by (auto simp: nn_Linear_def)

lemma nn_Linear_cases:
  "nn_Linear n_in n_out wb ps = Inl RuntimeError \<or>
   nn_Linear n_in n_out wb ps =
     Inr \<lparr>in_features = nat n_in, out_features = nat n_out, weight = fst ps,
          bias = (if wb then Some (snd ps) else None)\<rparr>"
  by (simp add: nn_Linear_def)

lemma nn_Dropout_cases: "nn_Dropout p = Inl ValueError \<or> nn_Dropout p = Inr p"
  by (simp add: nn_Dropout_def)

lemma nn_Dropout_Inr: "0 \<le> p \<Longrightarrow> p \<le> 1 \<Longrightarrow> nn_Dropout p = Inr p"
  by (simp add: nn_Dropout_def)

lemma attn_init_assert:
  "nh \<noteq> 0 \<Longrightarrow> n_embd mod nh \<noteq> 0 \<Longrightarrow>
   CausalSelfAttention_init n_embd nh ap rp bs pk pq pv pp = Inl AssertionError"
  by (simp add: CausalSelfAttention_init_def)

lemma attn_init_zero_heads:
  "CausalSelfAttention_init n_embd 0 ap rp bs pk pq pv pp = Inl ZeroDivisionError"
  by (simp add: CausalSelfAttention_init_def)

lemma attn_init_divisible:
  assumes "nh \<noteq> 0" "n_embd mod nh = 0"
  shows "CausalSelfAttention_init n_embd nh ap rp bs pk pq pv pp =
     (if n_embd < 0 then Inl RuntimeError
      else if ap < 0 \<or> 1 < ap \<or> rp < 0 \<or> 1 < rp then Inl ValueError
      else Inr \<lparr>training = True,
                key = \<lparr>in_features = nat n_embd, out_features = nat n_embd, weight = fst pk, bias = Some (snd pk)\<rparr>,
                query = \<lparr>in_features = nat n_embd, out_features = nat n_embd, weight = fst pq, bias = Some (snd pq)\<rparr>,
                value_lin = \<lparr>in_features = nat n_embd, out_features = nat n_embd, weight = fst pv, bias = Some (snd pv)\<rparr>,
                attn_drop = ap, resid_drop = rp,
                proj_lin = \<lparr>in_features = nat n_embd, out_features = nat n_embd, weight = fst pp, bias = Some (snd pp)\<rparr>,
                n_head = nh\<rparr>)"
  using assms by (simp add: CausalSelfAttention_init_def nn_Linear_def nn_Dropout_def)

lemma attn_init_Inr:
  assumes "CausalSelfAttention_init n_embd nh ap rp bs pk pq pv pp = Inr a"
  shows "nh \<noteq> 0 \<and> n_embd mod nh = 0 \<and> 0 \<le> n_embd \<and> n_head a = nh \<and> attn_drop a = ap \<and>
         resid_drop a = rp \<and> training a \<and>
         in_features (key a) = nat n_embd \<and> out_features (key a) = nat n_embd \<and>
         in_features (query a) = nat n_embd \<and> out_features (query a) = nat n_embd \<and>
         in_features (value_lin a) = nat n_embd \<and> out_features (value_lin a) = nat n_embd \<and>
         in_features (proj_lin a) = nat n_embd \<and> out_features (proj_lin a) = nat n_embd"
proof -
  have nz: "nh \<noteq> 0" using assms by (auto simp: CausalSelfAttention_init_def)
  have dv: "n_embd mod nh = 0" using assms nz
    by (auto simp: CausalSelfAttention_init_def split: if_splits)
  show ?thesis using assms unfolding attn_init_divisible[OF nz dv]
    by (auto split: if_splits simp: nz dv)
qed

lemma Linear_forward_rank3:
  "shape x = [B, T, C] \<Longrightarrow> in_features l = C \<Longrightarrow>
   \<exists>y. Linear_forward l x = Inr y \<and> shape y = [B, T, out_features l]"
  by (simp add: Linear_forward_def)

lemma Linear_forward_mismatch:
  "shape x = [B, T, C] \<Longrightarrow> in_features l \<noteq> C \<Longrightarrow> Linear_forward l x = Inl RuntimeError"
  by (simp add: Linear_forward_def)

lemma head_size:
  assumes "0 < nh" "int n mod nh = 0"
  shows "0 \<le> int n div nh" "nat nh * nat (int n div nh) = n"
proof -
  show 1: "0 \<le> int n div nh" using assms(1) by (simp add: pos_imp_zdiv_nonneg_iff)
  have "nh * (int n div nh) = int n" using assms(2) by (simp add: mod_0_imp_dvd)
  then have "int (nat nh * nat (int n div nh)) = int n" using assms(1) 1 by simp
  then show "nat nh * nat (int n div nh) = n" by linarith
qed

lemma head_size_pos:
  assumes "0 < nh" "int n mod nh = 0" "0 < n"
  shows "0 < nat (int n div nh)"
  using head_size(2)[OF assms(1,2)] assms(3) by (cases "nat (int n div nh)") auto

lemma split_heads_ok:
  assumes "shape t = [B, T, n]" "0 < nh" "int n mod nh = 0"
  shows "\<exists>k. split_heads B T n nh t = Inr k \<and> shape k = [B, nat nh, T, nat (int n div nh)]"
proof -
  have "B * T * nat nh * nat (int n div nh) = B * T * (nat nh * nat (int n div nh))" by simp
  also have "\<dots> = prod_list (shape t)" by (simp add: head_size(2)[OF assms(2,3)] assms(1))
  finally have eq: "B * T * nat nh * nat (int n div nh) = prod_list (shape t)" .
  show ?thesis using assms(2) head_size(1)[OF assms(2,3)] eq
    by (simp add: split_heads_def Let_def)
qed

lemma view_mask_ok:
  assumes "shape m = [B, T]" "0 < B"
  shows "\<exists>v. view_mask B m = Inr v \<and> shape v = [B, 1, 1, T]"
  using assms by (simp add: view_mask_def Let_def)

lemma broadcast_shapes_mask: "broadcast_shapes [B, nh, T, T] [B, 1, 1, T] = Some [B, nh, T, T]"
  by (simp add: broadcast_shapes_def pad_shape_def bdim_def)

lemma masked_fill_ok:
  assumes "shape att = [B, nh, T, T]" "shape m = [B, 1, 1, T]"
  shows "\<exists>r. masked_fill att m v = Inr r \<and> shape r = [B, nh, T, T]"
  by (simp add: masked_fill_def assms broadcast_shapes_mask del: One_nat_def)

lemma shape_softmax_last [simp]: "shape (softmax_last t) = shape t"
  by (simp add: softmax_last_def)

lemma shape_dropout [simp]: "shape (dropout p tr keep t) = shape t"
  by (simp add: dropout_def)

lemma matmul_av_ok:
  assumes "shape att = [B, nh, T, T]" "shape v = [B, nh, T, hs]"
  shows "\<exists>y. matmul_av att v = Inr y \<and> shape y = [B, nh, T, hs]"
  by (simp add: matmul_av_def assms)

lemma merge_heads_ok:
  assumes "shape y = [B, nh, T, hs]" "nh * hs = C"
  shows "\<exists>r. merge_heads B T C y = Inr r \<and> shape r = [B, T, C]"
proof -
  have "B * T * C = prod_list (shape y)" using assms by auto
  then show ?thesis by (simp add: merge_heads_def)
qed

lemma attn_forward_ok:
  assumes f: "in_features (key a) = n" "out_features (key a) = n"
             "in_features (query a) = n" "out_features (query a) = n"
             "in_features (value_lin a) = n" "out_features (value_lin a) = n"
             "in_features (proj_lin a) = n" "out_features (proj_lin a) = n"
      and nh: "0 < n_head a" "int n mod n_head a = 0" and n: "0 < n"
      and x: "shape x = [B, T, n]" and m: "shape msk = [B, T]" and B: "0 < B"
  shows "\<exists>y. CausalSelfAttention_forward a dr x msk = Inr y \<and> shape y = [B, T, n]"
proof -
  let ?nh = "nat (n_head a)" and ?hs = "nat (int n div n_head a)"
  obtain kx where kx: "Linear_forward (key a) x = Inr kx" "shape kx = [B, T, n]"
    using Linear_forward_rank3[OF x f(1)] f(2) by auto
  obtain k where k: "split_heads B T n (n_head a) kx = Inr k" "shape k = [B, ?nh, T, ?hs]"
    using split_heads_ok[OF kx(2) nh] by auto
  obtain qx where qx: "Linear_forward (query a) x = Inr qx" "shape qx = [B, T, n]"
    using Linear_forward_rank3[OF x f(3)] f(4) by auto
  obtain q where q: "split_heads B T n (n_head a) qx = Inr q" "shape q = [B, ?nh, T, ?hs]"
    using split_heads_ok[OF qx(2) nh] by auto
  obtain vx where vx: "Linear_forward (value_lin a) x = Inr vx" "shape vx = [B, T, n]"
    using Linear_forward_rank3[OF x f(5)] f(6) by auto
  obtain v where v: "split_heads B T n (n_head a) vx = Inr v" "shape v = [B, ?nh, T, ?hs]"
    using split_heads_ok[OF vx(2) nh] by auto
  obtain mv where mv: "view_mask B msk = Inr mv" "shape mv = [B, 1, 1, T]"
    using view_mask_ok[OF m B] by auto
  have hs: "(last (shape k) = 0) = False" using head_size_pos[OF nh n] by (simp add: k(2))
  let ?att = "tmap (\<lambda>u. u * (1 / sqrt (real (last (shape k))))) (matmul_qk q k)"
  have sa: "shape ?att = [B, ?nh, T, T]" by (simp add: matmul_qk_def q(2) k(2))
  obtain af where af: "masked_fill ?att mv (- (10 ^ 10)) = Inr af" "shape af = [B, ?nh, T, T]"
    using masked_fill_ok[OF sa mv(2)] by auto
  let ?w = "dropout (attn_drop a) (training a) (keep_attn dr) (softmax_last af)"
  have sw: "shape ?w = [B, ?nh, T, T]" by (simp add: af(2))
  obtain y where y: "matmul_av ?w v = Inr y" "shape y = [B, ?nh, T, ?hs]"
    using matmul_av_ok[OF sw v(2)] by auto
  obtain y2 where y2: "merge_heads B T n y = Inr y2" "shape y2 = [B, T, n]"
    using merge_heads_ok[OF y(2) head_size(2)[OF nh]] by auto
  obtain y3 where y3: "Linear_forward (proj_lin a) y2 = Inr y3" "shape y3 = [B, T, n]"
    using Linear_forward_rank3[OF y2(2) f(7)] f(8) by auto
  have "CausalSelfAttention_forward a dr x msk =
        Inr (dropout (resid_drop a) (training a) (keep_resid dr) y3)"
    unfolding CausalSelfAttention_forward_def Let_def
    by (simp only: x list.case kx(1) k(1) qx(1) q(1) vx(1) v(1) mv(1) hs af(1) y(1) y2(1) y3(1)
          ebind_Inr if_False)
  then show ?thesis by (simp add: y3(2))
qed

lemma attn_forward_no_assert: "CausalSelfAttention_forward a dr x msk \<noteq> Inl AssertionError"
proof -
  have L: "Linear_forward l t \<noteq> Inl AssertionError" for l t
    by (simp add: Linear_forward_def)
  have S: "split_heads B T C nh t \<noteq> Inl AssertionError" for B T C nh t
    by (simp add: split_heads_def Let_def)
  have V: "view_mask B t \<noteq> Inl AssertionError" for B t
    by (simp add: view_mask_def Let_def)
  have F: "masked_fill t m v \<noteq> Inl AssertionError" for t m v
    by (simp add: masked_fill_def split: option.splits)
  have A: "matmul_av t v \<noteq> Inl AssertionError" for t v
    by (simp add: matmul_av_def split: list.splits)
  have M: "merge_heads B T C t \<noteq> Inl AssertionError" for B T C t
    by (simp add: merge_heads_def)
  show ?thesis
    unfolding CausalSelfAttention_forward_def Let_def
    by (auto simp: ebind_eq_Inl L S V F A M split: list.splits if_splits)
qed

text \<open>
  Claim C7. The constructor of \<open>CausalSelfAttention\<close> raises the assertion error when
  \<open>n_embd % n_head\<close> is not 0 (and the division error of \<open>%\<close> itself when \<open>n_head\<close>
  is 0); when the remainder is 0 it does not raise the assertion error, and it returns a
  module whenever \<open>n_embd\<close> is not negative and both dropout probabilities lie in
  \<open>[0, 1]\<close>. A module that the constructor returned never raises the assertion error
  in \<open>forward\<close>; with a positive head count and a positive \<open>n_embd\<close>, \<open>forward\<close> on an
  input of shape \<open>[B, T, n_embd]\<close> and a mask of shape \<open>[B, T]\<close>, \<open>B\<close> positive, returns a
  tensor of the input's shape: the split into heads always fits.
\<close>

theorem attention_divisibility_at_construction:
  "(nh = 0 \<longrightarrow> CausalSelfAttention_init n_embd nh ap rp bs pk pq pv pp = Inl ZeroDivisionError) \<and>
   (nh \<noteq> 0 \<and> n_embd mod nh \<noteq> 0 \<longrightarrow>
      CausalSelfAttention_init n_embd nh ap rp bs pk pq pv pp = Inl AssertionError) \<and>
   (nh \<noteq> 0 \<and> n_embd mod nh = 0 \<longrightarrow>
      CausalSelfAttention_init n_embd nh ap rp bs pk pq pv pp \<noteq> Inl AssertionError \<and>
      (0 \<le> n_embd \<and> 0 \<le> ap \<and> ap \<le> 1 \<and> 0 \<le> rp \<and> rp \<le> 1 \<longrightarrow>
         (\<exists>a. CausalSelfAttention_init n_embd nh ap rp bs pk pq pv pp = Inr a))) \<and>
   (\<forall>a dr x msk. CausalSelfAttention_init n_embd nh ap rp bs pk pq pv pp = Inr a \<longrightarrow>
      CausalSelfAttention_forward a dr x msk \<noteq> Inl AssertionError \<and>
      (\<forall>B T. 0 < nh \<and> 0 < n_embd \<and> 0 < B \<and> shape x = [B, T, nat n_embd] \<and> shape msk = [B, T] \<longrightarrow>
         (\<exists>y. CausalSelfAttention_forward a dr x msk = Inr y \<and> shape y = [B, T, nat n_embd])))"
proof (intro conjI impI allI)
  assume "nh = 0"
  then show "CausalSelfAttention_init n_embd nh ap rp bs pk pq pv pp = Inl ZeroDivisionError"
    by (simp add: attn_init_zero_heads)
next
  assume "nh \<noteq> 0 \<and> n_embd mod nh \<noteq> 0"
  then show "CausalSelfAttention_init n_embd nh ap rp bs pk pq pv pp = Inl AssertionError"
    by (simp add: attn_init_assert)
next
  assume "nh \<noteq> 0 \<and> n_embd mod nh = 0"
  then show "CausalSelfAttention_init n_embd nh ap rp bs pk pq pv pp \<noteq> Inl AssertionError"
    by (simp add: attn_init_divisible)
next
  assume a: "nh \<noteq> 0 \<and> n_embd mod nh = 0"
     and b: "0 \<le> n_embd \<and> 0 \<le> ap \<and> ap \<le> 1 \<and> 0 \<le> rp \<and> rp \<le> 1"
  show "\<exists>a. CausalSelfAttention_init n_embd nh ap rp bs pk pq pv pp = Inr a"
    using a b by (simp add: attn_init_divisible)
next
  fix a :: CausalSelfAttention and dr :: dropout_draws and x msk :: tensor
  show "CausalSelfAttention_forward a dr x msk \<noteq> Inl AssertionError"
    by (rule attn_forward_no_assert)
next
  fix a :: CausalSelfAttention and dr :: dropout_draws and x msk :: tensor and B T :: nat
  assume i: "CausalSelfAttention_init n_embd nh ap rp bs pk pq pv pp = Inr a"
     and h: "0 < nh \<and> 0 < n_embd \<and> 0 < B \<and> shape x = [B, T, nat n_embd] \<and> shape msk = [B, T]"
  note f = attn_init_Inr[OF i]
  have nh: "0 < n_head a" "int (nat n_embd) mod n_head a = 0" using f h by simp_all
  have n: "0 < nat n_embd" using h by simp
  show "\<exists>y. CausalSelfAttention_forward a dr x msk = Inr y \<and> shape y = [B, T, nat n_embd]"
    by (rule attn_forward_ok[OF _ _ _ _ _ _ _ _ nh n]) (use f h in simp_all)
qed

theorem attention_divisibility_at_construction_witness:
  "CausalSelfAttention_init 4 0 (1 / 10) (1 / 10) 128 zero_params zero_params zero_params zero_params
     = Inl ZeroDivisionError \<and>
   CausalSelfAttention_init 4 3 (1 / 10) (1 / 10) 128 zero_params zero_params zero_params zero_params
     = Inl AssertionError \<and>
   CausalSelfAttention_init 4 2 (1 / 10) (1 / 10) 128 zero_params zero_params zero_params zero_params
     \<noteq> Inl AssertionError \<and>
   (\<exists>a. CausalSelfAttention_init 4 2 (1 / 10) (1 / 10) 128 zero_params zero_params zero_params zero_params
           = Inr a \<and>
        CausalSelfAttention_forward a keep_all (zeros [2, 5, 4]) (ones [2, 5]) \<noteq> Inl AssertionError \<and>
        (\<exists>y. CausalSelfAttention_forward a keep_all (zeros [2, 5, 4]) (ones [2, 5]) = Inr y \<and>
             shape y = [2, 5, 4]))"
proof -
  note bad = attention_divisibility_at_construction
    [of 3 4 "1 / 10" "1 / 10" 128 zero_params zero_params zero_params zero_params]
  note good = attention_divisibility_at_construction
    [of 2 4 "1 / 10" "1 / 10" 128 zero_params zero_params zero_params zero_params]
  have 0: "CausalSelfAttention_init 4 0 (1 / 10) (1 / 10) 128 zero_params zero_params zero_params
             zero_params = Inl ZeroDivisionError"
    using attention_divisibility_at_construction
      [of 0 4 "1 / 10" "1 / 10" 128 zero_params zero_params zero_params zero_params]
    by simp
  have 1: "CausalSelfAttention_init 4 3 (1 / 10) (1 / 10) 128 zero_params zero_params zero_params
             zero_params = Inl AssertionError"
    using bad by simp
  have 2: "CausalSelfAttention_init 4 2 (1 / 10) (1 / 10) 128 zero_params zero_params zero_params
             zero_params \<noteq> Inl AssertionError"
    using good by simp
  obtain a where a: "CausalSelfAttention_init 4 2 (1 / 10) (1 / 10) 128 zero_params zero_params
             zero_params zero_params = Inr a"
    using good by auto
  have 3: "CausalSelfAttention_forward a keep_all (zeros [2, 5, 4]) (ones [2, 5]) \<noteq> Inl AssertionError"
    using good a by blast
  have 4: "\<exists>y. CausalSelfAttention_forward a keep_all (zeros [2, 5, 4]) (ones [2, 5]) = Inr y \<and>
             shape y = [2, 5, nat 4]"
    using good[THEN conjunct2, THEN conjunct2, THEN conjunct2, rule_format, OF a,
        THEN conjunct2, rule_format, of 2 "zeros [2, 5, 4]" 5 "ones [2, 5]" keep_all]
    by (simp add: ones_def)
  show ?thesis using 0 1 2 a 3 4 by auto
qed

section \<open>Properties: the constructor of Block\<close>

lemma Block_init_attn:
  assumes "Block_init h p nc ls = Inr b"
  shows "CausalSelfAttention_init h 8 (1 / 10) p 128 (p_key ls) (p_query ls) (p_value ls) (p_proj ls)
           = Inr (attn b)"
  using assms unfolding Block_init_def
  by (auto simp: ebind_eq_Inr)

lemma Block_init_fails:
  assumes "h mod 8 \<noteq> 0"
  shows "\<exists>e. Block_init h p nc ls = Inl e"
proof (cases "Block_init h p nc ls")
  case (Inl e) then show ?thesis by blast
next
  case (Inr b)
  from attn_init_Inr[OF Block_init_attn[OF Inr]] assms show ?thesis by simp
qed

lemma Block_init_assertion:
  assumes "h mod 8 \<noteq> 0" "0 < h" "even h \<or> h = 1" "0 \<le> p" "p \<le> 1"
  shows "Block_init h p nc ls = Inl AssertionError"
proof -
  have pe: "position_encoding_init h 1000 = Inr \<lparr>pos_encodings = unsqueeze 0 (pe_table h 1000)\<rparr>"
    using assms(2,3) by (simp add: init_steps)
  have a: "CausalSelfAttention_init h 8 (1 / 10) p 128 (p_key ls) (p_query ls) (p_value ls) (p_proj ls)
           = Inl AssertionError"
    using assms(1) by (intro attn_init_assert) simp_all
  show ?thesis unfolding Block_init_def
    by (simp only: pe nn_Dropout_Inr[OF assms(4,5)] a ebind_Inr ebind_Inl)
qed

lemma Block_init_odd:
  assumes "odd h" "3 \<le> h"
  shows "Block_init h p nc ls = Inl RuntimeError"
proof -
  have pe: "position_encoding_init h 1000 = Inl RuntimeError"
    using assms by (simp add: init_steps)
  show ?thesis unfolding Block_init_def by (simp only: pe ebind_Inl)
qed

text \<open>
  Claim C10, as amended. A block that the constructor returns holds an attention with 8
  heads and attention dropout 0.1, whatever its arguments. For every \<open>hidden_size\<close>
  that is not a multiple of 8 the constructor raises. The error is the assertion error
  of the attention when \<open>hidden_size\<close> is positive and even, or 1, and the dropout
  probability lies in \<open>[0, 1]\<close>. For an odd \<open>hidden_size\<close> of 3 or more the block's
  position encoder, which is built first, already raises the tensor library's
  \<open>RuntimeError\<close>: its table has one cosine column fewer than the frequencies.
\<close>

theorem Block_head_count_fixed:
  "(\<forall>b. Block_init h p nc ls = Inr b \<longrightarrow> n_head (attn b) = 8 \<and> attn_drop (attn b) = 1 / 10) \<and>
   (h mod 8 \<noteq> 0 \<longrightarrow> (\<exists>e. Block_init h p nc ls = Inl e)) \<and>
   (h mod 8 \<noteq> 0 \<and> 0 < h \<and> (even h \<or> h = 1) \<and> 0 \<le> p \<and> p \<le> 1 \<longrightarrow>
      Block_init h p nc ls = Inl AssertionError) \<and>
   (odd h \<and> 3 \<le> h \<longrightarrow> Block_init h p nc ls = Inl RuntimeError)"
proof (intro conjI impI allI)
  fix b assume b: "Block_init h p nc ls = Inr b"
  from attn_init_Inr[OF Block_init_attn[OF b]]
  show "n_head (attn b) = 8" and "attn_drop (attn b) = 1 / 10" by simp_all
next
  assume "h mod 8 \<noteq> 0" then show "\<exists>e. Block_init h p nc ls = Inl e" by (rule Block_init_fails)
next
  assume "h mod 8 \<noteq> 0 \<and> 0 < h \<and> (even h \<or> h = 1) \<and> 0 \<le> p \<and> p \<le> 1"
  then show "Block_init h p nc ls = Inl AssertionError" by (intro Block_init_assertion) simp_all
next
  assume "odd h \<and> 3 \<le> h"
  then show "Block_init h p nc ls = Inl RuntimeError" by (intro Block_init_odd) simp_all
qed

theorem Block_head_count_fixed_witness:
  "(\<exists>b. Block_init 128 (1 / 10) 4 identity_layers = Inr b \<and> n_head (attn b) = 8 \<and>
        attn_drop (attn b) = 1 / 10) \<and>
   (\<exists>e. Block_init 100 (1 / 10) 4 identity_layers = Inl e) \<and>
   Block_init 100 (1 / 10) 4 identity_layers = Inl AssertionError \<and>
   Block_init 75 (1 / 10) 4 identity_layers = Inl RuntimeError"
proof -
  have pe: "position_encoding_init 128 1000 = Inr \<lparr>pos_encodings = unsqueeze 0 (pe_table 128 1000)\<rparr>"
    by (simp add: init_steps)
  have "\<exists>b. Block_init 128 (1 / 10) 4 identity_layers = Inr b"
    unfolding Block_init_def
    by (simp add: pe nn_Dropout_def attn_init_divisible nn_Linear_def)
  then obtain b where b: "Block_init 128 (1 / 10) 4 identity_layers = Inr b" by blast
  have 1: "n_head (attn b) = 8 \<and> attn_drop (attn b) = 1 / 10"
    using Block_head_count_fixed[of 128 "1 / 10" 4 identity_layers] b by blast
  have 2: "\<exists>e. Block_init 100 (1 / 10) 4 identity_layers = Inl e"
    using Block_head_count_fixed[of 100 "1 / 10" 4 identity_layers] by simp
  have 3: "Block_init 100 (1 / 10) 4 identity_layers = Inl AssertionError"
    using Block_head_count_fixed[of 100 "1 / 10" 4 identity_layers] by simp
  have 4: "Block_init 75 (1 / 10) 4 identity_layers = Inl RuntimeError"
    using Block_head_count_fixed[of 75 "1 / 10" 4 identity_layers] by simp
  show ?thesis using b 1 2 3 4 by blast
qed

text \<open>
  The claim C10 as stated fails at \<open>hidden_size = 75\<close>, which is not a multiple of 8:
  the constructor raises a \<open>RuntimeError\<close>, not the assertion error.
\<close>

theorem Block_odd_hidden_size_counterexample:
  "Block_init 75 (1 / 10) 4 identity_layers = Inl RuntimeError \<and>
   Block_init 75 (1 / 10) 4 identity_layers \<noteq> Inl AssertionError \<and> (75::int) mod 8 = 3"
  by (simp add: Block_init_odd)

section \<open>Properties: ensembling\<close>

lemma tadd_same_shape:
  assumes "shape a = sh" "shape b = sh"
  shows "tadd a b = Inr (bcast (\<lambda>u v. u + v) sh a b)"
  unfolding tadd_def by (rule tbinop_Inr) (simp add: assms)

lemma elem_bcast_same:
  assumes "shape a = sh" "shape b = sh" "in_range i sh"
  shows "elem (bcast f sh' a b) i = f (elem a i) (elem b i)"
  by (simp add: bcast_def assms(1,2) bindex_in_range[OF assms(3)])

lemma ensemble_loop_Cons:
  "ensemble_loop (a1, a2) (m # rest) =
     ebind (tadd a1 (fst m)) (\<lambda>b1. ebind (tadd a2 (snd m)) (\<lambda>b2. ensemble_loop (b1, b2) rest))"
  by (cases m) simp

lemma ensemble_loop_sums:
  assumes "\<forall>m\<in>set outs. shape (fst m) = sh \<and> shape (snd m) = sh"
      and "shape a1 = sh" "shape a2 = sh"
  shows "\<exists>r1 r2. ensemble_loop (a1, a2) outs = Inr (r1, r2) \<and> shape r1 = sh \<and> shape r2 = sh \<and>
           (\<forall>i. in_range i sh \<longrightarrow>
              elem r1 i = elem a1 i + (\<Sum>m\<leftarrow>outs. elem (fst m) i) \<and>
              elem r2 i = elem a2 i + (\<Sum>m\<leftarrow>outs. elem (snd m) i))"
  using assms
proof (induction outs arbitrary: a1 a2)
  case Nil
  then show ?case by simp
next
  case (Cons o1 outs)
  obtain l1 l2 where o1: "o1 = (l1, l2)" by (cases o1)
  have sl: "shape l1 = sh" "shape l2 = sh" using Cons.prems(1) o1 by auto
  let ?b1 = "bcast (\<lambda>u v. u + v) sh a1 l1" and ?b2 = "bcast (\<lambda>u v. u + v) sh a2 l2"
  have t1: "tadd a1 l1 = Inr ?b1" by (rule tadd_same_shape[OF Cons.prems(2) sl(1)])
  have t2: "tadd a2 l2 = Inr ?b2" by (rule tadd_same_shape[OF Cons.prems(3) sl(2)])
  have rest: "\<forall>m\<in>set outs. shape (fst m) = sh \<and> shape (snd m) = sh" using Cons.prems(1) by simp
  from Cons.IH[OF rest, of ?b1 ?b2]
  obtain r1 r2 where r: "ensemble_loop (?b1, ?b2) outs = Inr (r1, r2)" "shape r1 = sh" "shape r2 = sh"
    "\<forall>i. in_range i sh \<longrightarrow>
        elem r1 i = elem ?b1 i + (\<Sum>m\<leftarrow>outs. elem (fst m) i) \<and>
        elem r2 i = elem ?b2 i + (\<Sum>m\<leftarrow>outs. elem (snd m) i)"
    by auto
  have step: "ensemble_loop (a1, a2) (o1 # outs) = Inr (r1, r2)"
    by (simp add: o1 t1 t2 r(1))
  have "elem r1 i = elem a1 i + (\<Sum>m\<leftarrow>o1 # outs. elem (fst m) i) \<and>
        elem r2 i = elem a2 i + (\<Sum>m\<leftarrow>o1 # outs. elem (snd m) i)" if i: "in_range i sh" for i
    using r(4)[rule_format, OF i]
    by (simp add: o1 elem_bcast_same[OF Cons.prems(2) sl(1) i] elem_bcast_same[OF Cons.prems(3) sl(2) i])
  then show ?case using step r(2,3) by blast
qed

lemma exp_sum_list: "exp (sum_list xs) = prod_list (map exp xs)" for xs :: "real list"
  by (induction xs) (simp_all add: exp_add)

lemma exp_mean_geometric:
  assumes "n \<noteq> 0"
  shows "exp (sum_list xs / real n) = root n (prod_list (map exp xs))"
proof -
  have "exp (sum_list xs / real n) ^ n = exp (sum_list xs)"
    using assms by (simp add: exp_of_nat_mult[symmetric])
  moreover have "0 \<le> exp (sum_list xs / real n)" by simp
  ultimately have "root n (exp (sum_list xs)) = exp (sum_list xs / real n)"
    using assms by (metis real_root_pos_unique bot_nat_0.not_eq_extremum)
  then show ?thesis by (simp add: exp_sum_list)
qed

text \<open>
  Claim C1, as amended. In the ensembling branch, when the checkpoints' outputs have
  the shape of the batch, the distributions handed to the span decoder are, position by
  position, the exponential of the arithmetic mean of the models' log-probabilities:
  the geometric mean of their probabilities (not renormalised).
\<close>

theorem ensemble_averages_log_probabilities:
  assumes "outs \<noteq> []"
      and "\<forall>m\<in>set outs. shape (fst m) = sh \<and> shape (snd m) = sh"
  shows "\<exists>avg p1 p2. ensemble_batch sh outs = Inr (avg, (p1, p2)) \<and> shape p1 = sh \<and> shape p2 = sh \<and>
           (\<forall>i. in_range i sh \<longrightarrow>
              elem p1 i = exp ((\<Sum>m\<leftarrow>outs. elem (fst m) i) / real (length outs)) \<and>
              elem p1 i = root (length outs) (\<Prod>m\<leftarrow>outs. exp (elem (fst m) i)) \<and>
              elem p2 i = exp ((\<Sum>m\<leftarrow>outs. elem (snd m) i) / real (length outs)) \<and>
              elem p2 i = root (length outs) (\<Prod>m\<leftarrow>outs. exp (elem (snd m) i)))"
proof -
  from ensemble_loop_sums[OF assms(2), of "zeros sh" "zeros sh"]
  obtain r1 r2 where r: "ensemble_loop (zeros sh, zeros sh) outs = Inr (r1, r2)"
    "shape r1 = sh" "shape r2 = sh"
    "\<forall>i. in_range i sh \<longrightarrow>
        elem r1 i = elem (zeros sh) i + (\<Sum>m\<leftarrow>outs. elem (fst m) i) \<and>
        elem r2 i = elem (zeros sh) i + (\<Sum>m\<leftarrow>outs. elem (snd m) i)"
    by auto
  let ?n = "length outs"
  let ?p1 = "tmap exp (tdiv_scalar r1 ?n)" and ?p2 = "tmap exp (tdiv_scalar r2 ?n)"
  have n: "?n \<noteq> 0" using assms(1) by simp
  have e: "ensemble_batch sh outs = Inr ((tdiv_scalar r1 ?n, tdiv_scalar r2 ?n), (?p1, ?p2))"
    by (simp add: ensemble_batch_def r(1) Let_def)
  have g: "exp (sum_list (map f outs) / real ?n) = root ?n (\<Prod>m\<leftarrow>outs. exp (f m))"
    for f :: "tensor \<times> tensor \<Rightarrow> real"
    using exp_mean_geometric[OF n, of "map f outs"] by (simp add: comp_def)
  have s1: "elem r1 i = (\<Sum>m\<leftarrow>outs. elem (fst m) i)" "elem r2 i = (\<Sum>m\<leftarrow>outs. elem (snd m) i)"
    if "in_range i sh" for i
    using r(4)[rule_format, OF that] by (simp_all add: zeros_def)
  have q1: "elem ?p1 i = exp ((\<Sum>m\<leftarrow>outs. elem (fst m) i) / real ?n)" if "in_range i sh" for i
    by (simp add: tdiv_scalar_def s1(1)[OF that])
  have q2: "elem ?p2 i = exp ((\<Sum>m\<leftarrow>outs. elem (snd m) i) / real ?n)" if "in_range i sh" for i
    by (simp add: tdiv_scalar_def s1(2)[OF that])
  have q: "elem ?p1 i = exp ((\<Sum>m\<leftarrow>outs. elem (fst m) i) / real ?n) \<and>
        elem ?p1 i = root ?n (\<Prod>m\<leftarrow>outs. exp (elem (fst m) i)) \<and>
        elem ?p2 i = exp ((\<Sum>m\<leftarrow>outs. elem (snd m) i) / real ?n) \<and>
        elem ?p2 i = root ?n (\<Prod>m\<leftarrow>outs. exp (elem (snd m) i))" if i: "in_range i sh" for i
    using q1[OF i] q2[OF i] g[of "\<lambda>m. elem (fst m) i"] g[of "\<lambda>m. elem (snd m) i"]
    by (simp only: simp_thms)
  have sp: "shape ?p1 = sh" "shape ?p2 = sh" by (simp_all add: tdiv_scalar_def r(2,3))
  show ?thesis using e sp q by blast
qed

lemma exp_mean_example: "exp ((ln (1 / 2) + ln (1 / 8)) / 2) = (1 / 4 :: real)"
proof -
  have l8: "ln (8 :: real) = 3 * ln 2" using ln_realpow[of 2 3] by simp
  have l4: "ln (4 :: real) = 2 * ln 2" using ln_realpow[of 2 2] by simp
  have "(ln (1 / 2) + ln (1 / 8)) / 2 = ln (1 / 4 :: real)"
    by (simp add: ln_div l8 l4)
  then show ?thesis by (simp only: ) simp
qed

lemma example_outs_shape:
  "\<forall>m\<in>set [uniform_model, skewed_model]. shape (fst m) = [1, 2] \<and> shape (snd m) = [1, 2]"
  by (simp add: uniform_model_def skewed_model_def)

theorem ensemble_averages_log_probabilities_witness:
  "[uniform_model, skewed_model] \<noteq> [] \<and>
   (\<exists>avg p1 p2. ensemble_batch [1, 2] [uniform_model, skewed_model] = Inr (avg, (p1, p2)) \<and>
      shape p1 = [1, 2] \<and>
      elem p1 [0, 0] =
        exp ((elem (fst uniform_model) [0, 0] + elem (fst skewed_model) [0, 0]) / 2))"
proof -
  from ensemble_averages_log_probabilities[OF _ example_outs_shape]
  obtain avg p1 p2 where r: "ensemble_batch [1, 2] [uniform_model, skewed_model] = Inr (avg, (p1, p2))"
    "shape p1 = [1, 2]"
    "\<forall>i. in_range i [1, 2] \<longrightarrow>
       elem p1 i = exp ((\<Sum>m\<leftarrow>[uniform_model, skewed_model]. elem (fst m) i) /
                        real (length [uniform_model, skewed_model]))"
    by blast
  have i: "in_range [0, 0] [1, 2]" by (simp add: in_range_def)
  from r(3)[rule_format, OF i]
  have "elem p1 [0, 0] =
        exp ((elem (fst uniform_model) [0, 0] + elem (fst skewed_model) [0, 0]) / 2)"
    by simp
  then show ?thesis using r(1,2) by blast
qed

text \<open>
  The claim C1 as stated fails. Two checkpoints give position 0 the probabilities 1/2
  and 1/8: the driver's combined value there is 1/4, the exponential of the mean of the
  two log-probabilities, while the arithmetic mean of the two probabilities is 5/16.
\<close>

theorem ensemble_probability_mean_counterexample:
  "\<not> isl (ensemble_batch [1, 2] [uniform_model, skewed_model]) \<and>
   elem (fst (snd (projr (ensemble_batch [1, 2] [uniform_model, skewed_model])))) [0, 0] = 1 / 4 \<and>
   (exp (elem (fst uniform_model) [0, 0]) + exp (elem (fst skewed_model) [0, 0])) / 2 = 5 / 16 \<and>
   elem (fst (snd (projr (ensemble_batch [1, 2] [uniform_model, skewed_model])))) [0, 0] \<noteq>
     (exp (elem (fst uniform_model) [0, 0]) + exp (elem (fst skewed_model) [0, 0])) / 2"
proof -
  have u: "tadd (zeros [1, 2]) (fst uniform_model) =
           Inr (bcast (\<lambda>u v. u + v) [1, 2] (zeros [1, 2]) (fst uniform_model))"
    by (rule tadd_same_shape) (simp_all add: uniform_model_def)
  have s: "tadd (bcast (\<lambda>u v. u + v) [1, 2] (zeros [1, 2]) (fst uniform_model)) (fst skewed_model) =
           Inr (bcast (\<lambda>u v. u + v) [1, 2]
                  (bcast (\<lambda>u v. u + v) [1, 2] (zeros [1, 2]) (fst uniform_model)) (fst skewed_model))"
    by (rule tadd_same_shape) (simp_all add: skewed_model_def)
  have u2: "tadd (zeros [1, 2]) (snd uniform_model) =
           Inr (bcast (\<lambda>u v. u + v) [1, 2] (zeros [1, 2]) (snd uniform_model))"
    by (rule tadd_same_shape) (simp_all add: uniform_model_def)
  have s2: "tadd (bcast (\<lambda>u v. u + v) [1, 2] (zeros [1, 2]) (snd uniform_model)) (snd skewed_model) =
           Inr (bcast (\<lambda>u v. u + v) [1, 2]
                  (bcast (\<lambda>u v. u + v) [1, 2] (zeros [1, 2]) (snd uniform_model)) (snd skewed_model))"
    by (rule tadd_same_shape) (simp_all add: skewed_model_def)
  have l: "ensemble_loop (zeros [1, 2], zeros [1, 2]) [uniform_model, skewed_model] =
        Inr (bcast (\<lambda>u v. u + v) [1, 2]
               (bcast (\<lambda>u v. u + v) [1, 2] (zeros [1, 2]) (fst uniform_model)) (fst skewed_model),
             bcast (\<lambda>u v. u + v) [1, 2]
               (bcast (\<lambda>u v. u + v) [1, 2] (zeros [1, 2]) (snd uniform_model)) (snd skewed_model))"
    by (simp only: ensemble_loop_Cons ensemble_loop.simps(1) u s u2 s2 ebind_Inr)
  have i: "in_range [0, 0] [1, 2]" by (simp add: in_range_def)
  have v: "elem (bcast (\<lambda>u v. u + v) [1, 2]
               (bcast (\<lambda>u v. u + v) [1, 2] (zeros [1, 2]) (fst uniform_model)) (fst skewed_model)) [0, 0]
           = ln (1 / 2) + ln (1 / 8)"
    by (simp add: bcast_def bindex_in_range[OF i] uniform_model_def skewed_model_def zeros_def
          del: One_nat_def)
  have p: "elem (fst (snd (projr (ensemble_batch [1, 2] [uniform_model, skewed_model])))) [0, 0] = 1 / 4"
  proof -
    have "elem (fst (snd (projr (ensemble_batch [1, 2] [uniform_model, skewed_model])))) [0, 0] =
          exp (elem (bcast (\<lambda>u v. u + v) [1, 2]
               (bcast (\<lambda>u v. u + v) [1, 2] (zeros [1, 2]) (fst uniform_model)) (fst skewed_model)) [0, 0] / 2)"
      unfolding ensemble_batch_def l by (simp add: Let_def tdiv_scalar_def del: One_nat_def)
    then show ?thesis by (simp only: v exp_mean_example)
  qed
  have m: "(exp (elem (fst uniform_model) [0, 0]) + exp (elem (fst skewed_model) [0, 0])) / 2 = 5 / 16"
    by (simp add: uniform_model_def skewed_model_def)
  have r: "\<not> isl (ensemble_batch [1, 2] [uniform_model, skewed_model])"
    unfolding ensemble_batch_def l by (simp add: Let_def)
  show ?thesis unfolding p m using r by simp
qed

section \<open>Properties: the submission file\<close>

lemma write_rows_eq:
  "set us \<subseteq> fst ` set d \<Longrightarrow>
   write_rows d us rows = Inr (rows @ map (\<lambda>u. [u, the (map_of d u)]) us)"
proof (induction us arbitrary: rows)
  case Nil
  then show ?case by simp
next
  case (Cons u us)
  then obtain v where v: "map_of d u = Some v"
    by (metis list.set_intros(1) subsetD weak_map_of_SomeI map_of_eq_None_iff not_Some_eq)
  have "write_rows d (u # us) rows = write_rows d us (rows @ [[u, v]])"
    by (simp add: dict_getitem_def v)
  also have "\<dots> = Inr ((rows @ [[u, v]]) @ map (\<lambda>u. [u, the (map_of d u)]) us)"
    using Cons.prems by (intro Cons.IH) simp
  finally show ?case by (simp add: v)
qed

lemma distinct_dict_update:
  "distinct (map fst d) \<Longrightarrow> distinct (map fst (dict_update d other))"
  unfolding dict_update_def
  by (induction other arbitrary: d) (simp_all add: distinct_update)

lemma keys_dict_update:
  "fst ` set (dict_update d other) = fst ` set d \<union> fst ` set other"
  unfolding dict_update_def
proof (induction other arbitrary: d)
  case Nil
  then show ?case by simp
next
  case (Cons kv other)
  have "fst ` set (AList.update (fst kv) (snd kv) d) = insert (fst kv) (fst ` set d)"
    using dom_update[of "fst kv" "snd kv" d] by (simp add: dom_map_of_conv_image_fst)
  then show ?case by (simp add: Cons.IH)
qed

lemma distinct_collect_sub_dict: "distinct (map fst (collect_sub_dict batches))"
proof -
  have "distinct (map fst d) \<Longrightarrow>
        distinct (map fst (fold (\<lambda>uuid2pred d. dict_update d uuid2pred) batches d))" for d
    by (induction batches arbitrary: d) (simp_all add: distinct_dict_update)
  then show ?thesis by (simp add: collect_sub_dict_def)
qed

lemma keys_collect_sub_dict:
  "fst ` set (collect_sub_dict batches) = (\<Union>b\<in>set batches. fst ` set b)"
proof -
  have "fst ` set (fold (\<lambda>uuid2pred d. dict_update d uuid2pred) batches d) =
        fst ` set d \<union> (\<Union>b\<in>set batches. fst ` set b)" for d
    by (induction batches arbitrary: d) (auto simp: keys_dict_update)
  then show ?thesis by (simp add: collect_sub_dict_def)
qed

lemma write_submission_rows:
  "write_submission d =
     Inr ([''Id'', ''Predicted''] # map (\<lambda>u. [u, the (map_of d u)]) (sorted_keys d))"
  unfolding write_submission_def
  by (subst write_rows_eq) (simp_all add: sorted_keys_def)

text \<open>
  Claim C8. The rows that the driver hands to the CSV writer are the header row
  \<open>Id, Predicted\<close>, then one row \<open>[uuid, sub_dict[uuid]]\<close> for every key of \<open>sub_dict\<close>,
  each key once, the keys in strictly ascending order. (The text of a row is the
  work of the \<open>csv\<close> module.)
\<close>

theorem submission_rows_sorted:
  "\<exists>body. write_submission (collect_sub_dict batches) = Inr ([''Id'', ''Predicted''] # body) \<and>
      body = map (\<lambda>uuid. [uuid, the (map_of (collect_sub_dict batches) uuid)])
               (sorted_keys (collect_sub_dict batches)) \<and>
      sorted_wrt (\<lambda>u v. u < v) (map hd body) \<and>
      set (map hd body) = fst ` set (collect_sub_dict batches) \<and>
      set (map hd body) = (\<Union>b\<in>set batches. fst ` set b) \<and>
      length body = card (fst ` set (collect_sub_dict batches)) \<and>
      (\<forall>row\<in>set body. \<exists>uuid v. row = [uuid, v] \<and> map_of (collect_sub_dict batches) uuid = Some v)"
proof -
  let ?d = "collect_sub_dict batches"
  let ?body = "map (\<lambda>uuid. [uuid, the (map_of ?d uuid)]) (sorted_keys ?d)"
  have hd: "map hd ?body = sorted_keys ?d" by (simp add: comp_def)
  have dk: "distinct (sorted_keys ?d)"
    by (simp add: sorted_keys_def distinct_collect_sub_dict)
  have 1: "sorted_wrt (\<lambda>u v. u < v) (map hd ?body)"
    unfolding hd using dk by (simp add: strict_sorted_iff sorted_keys_def)
  have 2: "set (map hd ?body) = fst ` set ?d" unfolding hd by (simp add: sorted_keys_def)
  have 3: "length ?body = card (fst ` set ?d)"
    using distinct_card[OF dk] by (simp add: sorted_keys_def)
  have 4: "\<exists>uuid v. row = [uuid, v] \<and> map_of ?d uuid = Some v" if "row \<in> set ?body" for row
  proof -
    from that obtain u where u: "u \<in> fst ` set ?d" "row = [u, the (map_of ?d u)]"
      by (auto simp: sorted_keys_def)
    then obtain v where "map_of ?d u = Some v"
      by (metis map_of_eq_None_iff not_Some_eq)
    then show ?thesis using u(2) by simp
  qed
  have 5: "set (map hd ?body) = (\<Union>b\<in>set batches. fst ` set b)"
    by (simp only: 2 keys_collect_sub_dict)
  have 6: "\<forall>row\<in>set ?body. \<exists>uuid v. row = [uuid, v] \<and> map_of ?d uuid = Some v"
    using 4 by blast
  show ?thesis
    by (rule exI[of _ ?body]) (intro conjI write_submission_rows refl 1 2 3 5 6)
qed

lemma example_sub_dict:
  "collect_sub_dict example_batches = [(''b2'', ''Paris''), (''a1'', ''1066''), (''c3'', '''')]"
  by (simp add: collect_sub_dict_def example_batches_def dict_update_def)

lemma example_sorted_keys:
  "sorted_keys [(''b2'', ''Paris''), (''a1'', ''1066''), (''c3'', '''')] = [''a1'', ''b2'', ''c3'']"
  unfolding sorted_keys_def by code_simp

theorem submission_rows_sorted_witness:
  "write_submission (collect_sub_dict example_batches) =
     Inr [[''Id'', ''Predicted''], [''a1'', ''1066''], [''b2'', ''Paris''], [''c3'', '''']] \<and>
   sorted_wrt (\<lambda>u v. u < v) [''a1'', ''b2'', ''c3'']"
proof -
  from submission_rows_sorted[of example_batches]
  obtain body where b: "write_submission (collect_sub_dict example_batches) = Inr ([''Id'', ''Predicted''] # body)"
    "body = map (\<lambda>uuid. [uuid, the (map_of (collect_sub_dict example_batches) uuid)])
               (sorted_keys (collect_sub_dict example_batches))"
    "sorted_wrt (\<lambda>u v. u < v) (map hd body)"
    by blast
  have body: "body = [[''a1'', ''1066''], [''b2'', ''Paris''], [''c3'', '''']]"
    unfolding b(2) example_sub_dict example_sorted_keys by simp
  show ?thesis using b(1,3) unfolding body by simp
qed

section \<open>Properties: Block.forward\<close>

lemma conv_loop_same:
  "conv_loop blk n (x, x) = Inr (x', r') \<Longrightarrow> r' = x'"
proof (induction n arbitrary: x)
  case 0
  then show ?case by auto
next
  case (Suc n)
  from Suc.prems obtain x2 where "conv_loop blk n (x2, x2) = Inr (x', r')"
    by (auto simp: ebind_eq_Inr)
  then show ?case by (rule Suc.IH)
qed

lemma tadd_same_shape_elem:
  assumes "tadd a b = Inr s" "shape a = sh" "shape b = sh"
  shows "shape s = sh \<and> (\<forall>i. in_range i sh \<longrightarrow> elem s i = elem a i + elem b i)"
proof -
  have "s = bcast (\<lambda>u v. u + v) sh a b"
    using assms(1) tadd_same_shape[OF assms(2,3)] by simp
  then show ?thesis by (simp add: elem_bcast_same[OF assms(2,3)])
qed

lemma attn_sublayer_Inr:
  "attn_sublayer blk dr msk (x, residual) = Inr (x', r') \<longleftrightarrow>
     (\<exists>n a s. attn_ln blk x = Inr n \<and>
        CausalSelfAttention_forward (attn blk) dr
          (dropout (1 / 10) (training blk) (keep_in dr) n) msk = Inr a \<and>
        tadd (dropout (1 / 10) (training blk) (keep_in dr) n) a = Inr s \<and>
        tadd s residual = Inr x' \<and> r' = x')"
  by (auto simp: attn_sublayer_def ebind_eq_Inr Let_def)

text \<open>
  Claim C3. When \<open>Block.forward\<close> returns, the pair \<open>(x, residual)\<close> that leaves the
  convolution stage holds the same tensor twice; the attention sublayer normalises it,
  applies dropout to the result \<open>y\<close>, and the new activation is
  \<open>(y + attention(y, mask)) + residual\<close>, which the feed-forward sublayer then receives as
  both \<open>x\<close> and \<open>residual\<close>. When the three summands have one shape, the new activation
  is their sum entry by entry.
\<close>

theorem Block_attention_triple_addition:
  assumes "Block_forward blk dr x msk = Inr out"
  shows "\<exists>x0 residual n y a s x2.
     position_encoding_forward (position_encoder blk) x = Inr x0 \<and>
     conv_loop blk (nat (num_convs blk)) (x0, x0) = Inr (residual, residual) \<and>
     attn_ln blk residual = Inr n \<and>
     y = dropout (1 / 10) (training blk) (keep_in dr) n \<and>
     CausalSelfAttention_forward (attn blk) dr y msk = Inr a \<and>
     tadd y a = Inr s \<and> tadd s residual = Inr x2 \<and>
     ff_sublayer blk dr (x2, x2) = Inr out \<and>
     (shape a = shape y \<and> shape residual = shape y \<longrightarrow>
        shape x2 = shape y \<and>
        (\<forall>i. in_range i (shape y) \<longrightarrow> elem x2 i = elem y i + elem a i + elem residual i))"
proof -
  from assms obtain x0 xr xr' where
    x0: "position_encoding_forward (position_encoder blk) x = Inr x0" and
    cl: "conv_loop blk (nat (num_convs blk)) (x0, x0) = Inr xr" and
    at: "attn_sublayer blk dr msk xr = Inr xr'" and
    ff: "ff_sublayer blk dr xr' = Inr out"
    by (auto simp: Block_forward_def ebind_eq_Inr)
  obtain xc residual where xr: "xr = (xc, residual)" by (cases xr)
  have same: "residual = xc" using cl conv_loop_same unfolding xr by blast
  obtain x2 r2 where xr': "xr' = (x2, r2)" by (cases xr')
  from at[unfolded xr xr' attn_sublayer_Inr same]
  obtain n a s where
    n: "attn_ln blk xc = Inr n" and
    a: "CausalSelfAttention_forward (attn blk) dr
          (dropout (1 / 10) (training blk) (keep_in dr) n) msk = Inr a" and
    s: "tadd (dropout (1 / 10) (training blk) (keep_in dr) n) a = Inr s" and
    x2: "tadd s xc = Inr x2" and r2: "r2 = x2"
    by blast
  let ?y = "dropout (1 / 10) (training blk) (keep_in dr) n"
  have el: "shape x2 = shape ?y \<and>
        (\<forall>i. in_range i (shape ?y) \<longrightarrow> elem x2 i = elem ?y i + elem a i + elem xc i)"
    if sh: "shape a = shape ?y \<and> shape xc = shape ?y"
  proof -
    have s1: "shape s = shape ?y" "\<forall>i. in_range i (shape ?y) \<longrightarrow> elem s i = elem ?y i + elem a i"
      using tadd_same_shape_elem[OF s refl] sh by simp_all
    have s2: "shape x2 = shape ?y" "\<forall>i. in_range i (shape ?y) \<longrightarrow> elem x2 i = elem s i + elem xc i"
      using tadd_same_shape_elem[OF x2 s1(1)] sh by simp_all
    show ?thesis using s1 s2 by simp
  qed
  show ?thesis
    using x0 cl[unfolded xr same] n a s x2 ff[unfolded xr' r2] el by blast
qed

lemma Block_init_Inr:
  assumes "0 < h" "h mod 8 = 0" "0 \<le> p" "p \<le> 1"
  shows "\<exists>b. Block_init h p nc ls = Inr b \<and> training b \<and> num_convs b = nc \<and>
           position_encoder b = \<lparr>pos_encodings = unsqueeze 0 (pe_table h 1000)\<rparr> \<and>
           conv_ln b = l_conv_ln ls \<and> convolution b = l_convolution ls \<and>
           attn_ln b = l_attn_ln ls \<and> ff_ln b = l_ff_ln ls \<and>
           CausalSelfAttention_init h 8 (1 / 10) p 128 (p_key ls) (p_query ls) (p_value ls) (p_proj ls)
             = Inr (attn b) \<and>
           in_features (ff_1 b) = nat h \<and> out_features (ff_1 b) = nat h \<and>
           in_features (ff_2 b) = nat h \<and> out_features (ff_2 b) = nat h"
proof -
  have ev: "even h" using assms(2) by presburger
  have pe: "position_encoding_init h 1000 = Inr \<lparr>pos_encodings = unsqueeze 0 (pe_table h 1000)\<rparr>"
    using assms(1) ev by (simp add: init_steps)
  obtain a where a: "CausalSelfAttention_init h 8 (1 / 10) p 128 (p_key ls) (p_query ls)
      (p_value ls) (p_proj ls) = Inr a"
    using assms by (simp add: attn_init_divisible)
  have l: "nn_Linear h h True ps =
     Inr \<lparr>in_features = nat h, out_features = nat h, weight = fst ps, bias = Some (snd ps)\<rparr>" for ps
    using assms(1) by (simp add: nn_Linear_def)
  show ?thesis unfolding Block_init_def
    by (simp only: pe nn_Dropout_Inr[OF assms(3,4)] a l ebind_Inr) simp
qed

lemma transpose12_rank3:
  "shape t = [B, T, C] \<Longrightarrow> \<exists>u. transpose12 t = Inr u \<and> shape u = [B, C, T]"
  by (simp add: transpose12_def)

lemma tadd_inplace_same_shape:
  assumes "shape a = sh" "shape b = sh"
  shows "tadd_inplace a b = Inr (bcast (\<lambda>u v. u + v) sh a b)"
  by (simp add: tadd_inplace_def assms tadd_same_shape[OF assms])

lemma conv_loop_identity:
  assumes "conv_ln blk = Inr" "convolution blk = Inr" "shape x = [B, T, C]"
  shows "\<exists>x'. conv_loop blk k (x, x) = Inr (x', x') \<and> shape x' = [B, T, C]"
  using assms(3)
proof (induction k arbitrary: x)
  case 0
  then show ?case by simp
next
  case (Suc k)
  obtain xt where xt: "transpose12 x = Inr xt" "shape xt = [B, C, T]"
    using transpose12_rank3[OF Suc.prems] by blast
  obtain c where c: "transpose12 xt = Inr c" "shape c = [B, T, C]"
    using transpose12_rank3[OF xt(2)] by blast
  let ?x = "bcast (\<lambda>u v. u + v) [B, T, C] c x"
  have ad: "tadd_inplace c x = Inr ?x" by (rule tadd_inplace_same_shape[OF c(2) Suc.prems])
  have "shape ?x = [B, T, C]" by simp
  from Suc.IH[OF this] obtain x' where x': "conv_loop blk k (?x, ?x) = Inr (x', x')" "shape x' = [B, T, C]"
    by blast
  have "conv_loop blk (Suc k) (x, x) = Inr (x', x')"
    by (simp add: assms(1,2) xt(1) c(1) ad x'(1))
  then show ?case using x'(2) by blast
qed

lemma ff_sublayer_identity:
  assumes "ff_ln blk = Inr" "shape x = [B, T, C]" "shape r = [B, T, C]"
      and "in_features (ff_1 blk) = C" "out_features (ff_1 blk) = C"
      and "in_features (ff_2 blk) = C" "out_features (ff_2 blk) = C"
  shows "\<exists>out. ff_sublayer blk dr (x, r) = Inr out \<and> shape out = [B, T, C]"
proof -
  let ?d = "dropout (1 / 10) (training blk) (keep_ff dr) x"
  have sd: "shape ?d = [B, T, C]" by (simp add: assms(2))
  obtain f1 where f1: "Linear_forward (ff_1 blk) ?d = Inr f1" "shape f1 = [B, T, C]"
    using Linear_forward_rank3[OF sd assms(4)] assms(5) by auto
  have sr: "shape (tmap (max 0) f1) = [B, T, C]" by (simp add: f1(2))
  obtain f2 where f2: "Linear_forward (ff_2 blk) (tmap (max 0) f1) = Inr f2" "shape f2 = [B, T, C]"
    using Linear_forward_rank3[OF sr assms(6)] assms(7) by auto
  have ad: "tadd_inplace f2 r = Inr (bcast (\<lambda>u v. u + v) [B, T, C] f2 r)"
    by (rule tadd_inplace_same_shape[OF f2(2) assms(3)])
  have "ff_sublayer blk dr (x, r) = Inr (bcast (\<lambda>u v. u + v) [B, T, C] f2 r)"
    unfolding ff_sublayer_def Let_def
    by (simp only: prod.case assms(1) ebind_Inr f1(1) f2(1) ad)
  then show ?thesis by simp
qed

lemma Block_forward_identity_layers:
  assumes b: "Block_init h p nc identity_layers = Inr b" and h: "0 < h"
      and x: "shape x = [B, T, nat h]" "T \<le> 1000" "0 < B" and m: "shape msk = [B, T]"
  shows "\<exists>out. Block_forward b dr x msk = Inr out \<and> shape out = [B, T, nat h]"
proof -
  note a = attn_init_Inr[OF Block_init_attn[OF b]]
  have h8: "h mod 8 = 0" using a by simp
  have p: "0 \<le> p" "p \<le> 1"
    using Block_init_attn[OF b] h8 by (auto simp: attn_init_divisible split: if_splits)
  from Block_init_Inr[OF h h8 p, of nc identity_layers] b
  have f: "position_encoder b = \<lparr>pos_encodings = unsqueeze 0 (pe_table h 1000)\<rparr>"
    "conv_ln b = Inr" "convolution b = Inr" "attn_ln b = Inr" "ff_ln b = Inr"
    "in_features (ff_1 b) = nat h" "out_features (ff_1 b) = nat h"
    "in_features (ff_2 b) = nat h" "out_features (ff_2 b) = nat h"
    by (auto simp: identity_layers_def)
  have sh: "shape (pos_encodings (position_encoder b)) = [1, nat 1000, nat h]"
    unfolding f(1) by (simp only: position_encoding.simps table_shape)
  from forward_ok[OF sh x(1)] x(2)
  obtain x0 where x0: "position_encoding_forward (position_encoder b) x = Inr x0"
    "shape x0 = [B, T, nat h]" by auto
  from conv_loop_identity[OF f(2,3) x0(2)]
  obtain r where r: "conv_loop b (nat (num_convs b)) (x0, x0) = Inr (r, r)" "shape r = [B, T, nat h]"
    by blast
  let ?y = "dropout (1 / 10) (training b) (keep_in dr) r"
  have sy: "shape ?y = [B, T, nat h]" by (simp add: r(2))
  have nh: "0 < n_head (attn b)" "int (nat h) mod n_head (attn b) = 0" using a h by simp_all
  have n: "0 < nat h" using h by simp
  obtain av where av: "CausalSelfAttention_forward (attn b) dr ?y msk = Inr av"
    "shape av = [B, T, nat h]"
    using attn_forward_ok[OF _ _ _ _ _ _ _ _ nh n sy m x(3), of dr] a by auto
  let ?s = "bcast (\<lambda>u v. u + v) [B, T, nat h] ?y av"
  have s: "tadd ?y av = Inr ?s" by (rule tadd_same_shape[OF sy av(2)])
  let ?x2 = "bcast (\<lambda>u v. u + v) [B, T, nat h] ?s r"
  have x2: "tadd ?s r = Inr ?x2" by (rule tadd_same_shape[OF _ r(2)]) simp
  have at: "attn_sublayer b dr msk (r, r) = Inr (?x2, ?x2)"
    unfolding attn_sublayer_Inr using f(4) av(1) s x2 by simp
  obtain out where out: "ff_sublayer b dr (?x2, ?x2) = Inr out" "shape out = [B, T, nat h]"
    using ff_sublayer_identity[OF f(5) _ _ f(6-9), of ?x2 B T ?x2 dr] by auto
  have "Block_forward b dr x msk = Inr out"
    unfolding Block_forward_def by (simp only: x0(1) r(1) at out(1) ebind_Inr)
  then show ?thesis using out(2) by blast
qed

theorem Block_attention_triple_addition_witness:
  "\<exists>b out. Block_init 8 (1 / 10) 1 identity_layers = Inr b \<and>
     Block_forward b keep_all (zeros [2, 5, 8]) (ones [2, 5]) = Inr out \<and>
     (\<exists>x0 residual y a s x2.
        position_encoding_forward (position_encoder b) (zeros [2, 5, 8]) = Inr x0 \<and>
        conv_loop b 1 (x0, x0) = Inr (residual, residual) \<and>
        y = dropout (1 / 10) True (\<lambda>i. True) residual \<and>
        CausalSelfAttention_forward (attn b) keep_all y (ones [2, 5]) = Inr a \<and>
        tadd y a = Inr s \<and> tadd s residual = Inr x2 \<and>
        ff_sublayer b keep_all (x2, x2) = Inr out \<and>
        shape x2 = [2, 5, 8] \<and>
        elem x2 [1, 4, 7] = elem y [1, 4, 7] + elem a [1, 4, 7] + elem residual [1, 4, 7])"
proof -
  obtain b where b: "Block_init 8 (1 / 10) 1 identity_layers = Inr b"
    "training b" "num_convs b = 1" "attn_ln b = Inr" "conv_ln b = Inr" "convolution b = Inr"
    "position_encoder b = \<lparr>pos_encodings = unsqueeze 0 (pe_table 8 1000)\<rparr>"
    "CausalSelfAttention_init 8 8 (1 / 10) (1 / 10) 128 zero_params zero_params zero_params
       zero_params = Inr (attn b)"
    using Block_init_Inr[of 8 "1 / 10" 1 identity_layers] by (auto simp: identity_layers_def)
  obtain out where out: "Block_forward b keep_all (zeros [2, 5, 8]) (ones [2, 5]) = Inr out"
    using Block_forward_identity_layers[OF b(1), of "zeros [2, 5, 8]" 2 5 "ones [2, 5]" keep_all]
    by (auto simp: ones_def)
  from Block_attention_triple_addition[OF out]
  obtain x0 residual n y a s x2 where t:
    "position_encoding_forward (position_encoder b) (zeros [2, 5, 8]) = Inr x0"
    "conv_loop b (nat (num_convs b)) (x0, x0) = Inr (residual, residual)"
    "attn_ln b residual = Inr n"
    "y = dropout (1 / 10) (training b) (keep_in keep_all) n"
    "CausalSelfAttention_forward (attn b) keep_all y (ones [2, 5]) = Inr a"
    "tadd y a = Inr s" "tadd s residual = Inr x2"
    "ff_sublayer b keep_all (x2, x2) = Inr out"
    "shape a = shape y \<and> shape residual = shape y \<longrightarrow>
        shape x2 = shape y \<and>
        (\<forall>i. in_range i (shape y) \<longrightarrow> elem x2 i = elem y i + elem a i + elem residual i)"
    by blast
  have n: "n = residual" using t(3) b(4) by simp
  have y: "y = dropout (1 / 10) True (\<lambda>i. True) residual"
    using t(4) b(2) by (simp add: n keep_all_def)
  have sh: "shape (pos_encodings (position_encoder b)) = [1, nat 1000, nat 8]"
    unfolding b(7) by (simp only: position_encoding.simps table_shape)
  have sx0: "shape x0 = [2, 5, 8]"
    using forward_ok[OF sh, of "zeros [2, 5, 8]" 2 5] t(1) by auto
  have sr: "shape residual = [2, 5, 8]"
    using conv_loop_identity[OF b(5,6) sx0, of "nat (num_convs b)"] t(2) by auto
  have sy: "shape y = [2, 5, 8]" by (simp add: y sr)
  note ai = attn_init_Inr[OF b(8)]
  have sa: "shape a = [2, 5, 8]"
    using attn_forward_ok[of "attn b" 8 y 2 5 "ones [2, 5]" keep_all] ai sy t(5)
    by (auto simp: ones_def)
  have i: "in_range [1, 4, 7] (shape y)" by (simp add: sy in_range_def)
  have e: "shape x2 = [2, 5, 8] \<and>
     elem x2 [1, 4, 7] = elem y [1, 4, 7] + elem a [1, 4, 7] + elem residual [1, 4, 7]"
    using t(9) sa sr sy i by simp
  have c: "conv_loop b 1 (x0, x0) = Inr (residual, residual)" using t(2) b(3) by simp
  show ?thesis using b(1) out t(1) c y t(5,6,7,8) e by blast
qed

section \<open>Properties: QANetOutput\<close>

lemma masked_row_sums_to_one:
  fixes l :: "nat \<Rightarrow> real" and v :: "nat \<Rightarrow> bool"
  assumes "\<exists>t<T. v t"
  defines "z \<equiv> (\<Sum>j<T. if v j then exp (l j) else 0)"
  shows "(\<Sum>t<T. if v t then exp (l t - ln z) else 0) = 1"
proof -
  obtain t0 where t0: "t0 < T" "v t0" using assms(1) by blast
  have nonneg: "\<And>j. 0 \<le> (if v j then exp (l j) else 0)" by simp
  have "exp (l t0) \<le> z"
    unfolding z_def
    using member_le_sum[of t0 "{..<T}" "\<lambda>j. if v j then exp (l j) else 0"] t0 by simp
  then have zpos: "0 < z" using exp_gt_zero[of "l t0"] by linarith
  have "(\<Sum>t<T. if v t then exp (l t - ln z) else 0) =
        (\<Sum>t<T. (if v t then exp (l t) else 0) / z)"
    by (rule sum.cong) (simp_all add: exp_diff zpos)
  also have "\<dots> = z / z" by (simp add: sum_divide_distrib[symmetric] z_def)
  also have "\<dots> = 1" using zpos by simp
  finally show ?thesis .
qed

lemma cat2_rank3:
  "shape a = [B, T, C] \<Longrightarrow> shape b = [B, T, C'] \<Longrightarrow>
   \<exists>c. cat2 a b = Inr c \<and> shape c = [B, T, C + C']"
  by (simp add: cat2_def cat_skips_def)

lemma QANetOutput_forward_ok:
  assumes "shape M1 = [B, T, H]" "shape M2 = [B, T, H]" "shape M3 = [B, T, H]"
      and "in_features (w1 out) = H + H" "out_features (w1 out) = 1"
      and "in_features (w2 out) = H + H" "out_features (w2 out) = 1"
  shows "\<exists>s1 s2. shape s1 = [B, T, 1] \<and> shape s2 = [B, T, 1] \<and>
           QANetOutput_forward out msm M1 M2 M3 msk =
             ebind (msm (squeeze s1) msk True) (\<lambda>p1.
             ebind (msm (squeeze s2) msk True) (\<lambda>p2. Inr (p1, p2)))"
proof -
  obtain x1 where x1: "cat2 M1 M2 = Inr x1" "shape x1 = [B, T, H + H]"
    using cat2_rank3[OF assms(1,2)] by blast
  obtain x2 where x2: "cat2 M2 M3 = Inr x2" "shape x2 = [B, T, H + H]"
    using cat2_rank3[OF assms(2,3)] by blast
  obtain s1 where s1: "Linear_forward (w1 out) x1 = Inr s1" "shape s1 = [B, T, 1]"
    using Linear_forward_rank3[OF x1(2) assms(4)] assms(5) by auto
  obtain s2 where s2: "Linear_forward (w2 out) x2 = Inr s2" "shape s2 = [B, T, 1]"
    using Linear_forward_rank3[OF x2(2) assms(6)] assms(7) by auto
  have "QANetOutput_forward out msm M1 M2 M3 msk =
             ebind (msm (squeeze s1) msk True) (\<lambda>p1.
             ebind (msm (squeeze s2) msk True) (\<lambda>p2. Inr (p1, p2)))"
    unfolding QANetOutput_forward_def by (simp only: x1(1) x2(1) s1(1) s2(1) ebind_Inr)
  then show ?thesis using s1(2) s2(2) by blast
qed

lemma shape_squeeze: "shape (squeeze t) = filter (\<lambda>d. d \<noteq> 1) (shape t)"
  by (simp add: squeeze_def)

section \<open>Properties: the squeezed logits and the masked attention scores\<close>

text \<open>
  The logits that \<open>QANetOutput.forward\<close> hands to \<open>masked_softmax\<close>: the unqualified
  \<open>squeeze()\<close> removes the feature dimension, and with it the batch dimension when
  \<open>B = 1\<close> and the sequence dimension when \<open>T = 1\<close>.
\<close>

lemma squeezed_logits_shape:
  "shape s = [B, T, 1] \<Longrightarrow>
   shape (squeeze s) = (if B = 1 then [] else [B]) @ (if T = 1 then [] else [T])"
  by (simp add: squeeze_def)

lemma unflatten_row_major: "j < T \<Longrightarrow> unflatten [B, T] (b * T + j) = [b, j]"
  by simp

lemma view_mask_elem:
  assumes "shape m = [B, T]" "0 < B" "j < T"
  shows "\<exists>v. view_mask B m = Inr v \<and> shape v = [B, 1, 1, T] \<and> elem v [b, 0, 0, j] = elem m [b, j]"
  using assms by (simp add: view_mask_def Let_def)

text \<open>
  The scores that reach the softmax of the attention: at a key position whose mask entry
  is 0 the score is \<open>- 10 ^ 10\<close>, at every other position it is unchanged.
\<close>

lemma masked_scores:
  assumes "shape att = [B, nh, T, T]" "shape m = [B, T]" "0 < B"
      and "b < B" "h < nh" "i < T" "j < T"
  shows "\<exists>v r. view_mask B m = Inr v \<and> masked_fill att v (- (10 ^ 10)) = Inr r \<and>
           shape r = [B, nh, T, T] \<and>
           elem r [b, h, i, j] = (if elem m [b, j] = 0 then - (10 ^ 10) else elem att [b, h, i, j])"
proof -
  obtain v where v: "view_mask B m = Inr v" "shape v = [B, 1, 1, T]"
    "elem v [b, 0, 0, j] = elem m [b, j]"
    using view_mask_elem[OF assms(2,3,7)] by blast
  have bs: "broadcast_shapes (shape att) (shape v) = Some [B, nh, T, T]"
    by (simp only: assms(1) v(2) broadcast_shapes_mask)
  have i1: "bindex (shape v) [b, h, i, j] = [b, 0, 0, j]"
    using assms(4,7) by (auto simp: v(2) bindex_def)
  have i2: "bindex (shape att) [b, h, i, j] = [b, h, i, j]"
    using assms(4-7) by (intro bindex_in_range) (simp add: assms(1) in_range_def)
  have "masked_fill att v (- (10 ^ 10)) =
        Inr \<lparr>shape = [B, nh, T, T],
             elem = (\<lambda>i. if elem v (bindex (shape v) i) = 0 then - (10 ^ 10)
                         else elem att (bindex (shape att) i))\<rparr>"
    unfolding masked_fill_def by (simp only: bs option.case)
  then show ?thesis using v(1) by (simp add: i1 i2 v(3))
qed

section \<open>Properties: the attention weights at padded keys\<close>

text \<open>
  \<open>forward\<close> is \<open>attention_weights\<close> followed by \<open>attention_output\<close>: the trace holds
  the tensors that \<open>forward\<close> itself computes on its way.
\<close>

lemma forward_from_attention_weights:
  "CausalSelfAttention_forward a dr x msk =
     ebind (attention_weights a x msk) (attention_output a dr x)"
proof (cases "\<exists>B T C. shape x = [B, T, C]")
  case False
  then have "CausalSelfAttention_forward a dr x msk = Inl ValueError"
    unfolding CausalSelfAttention_forward_def by (auto split: list.splits)
  moreover from False have "attention_weights a x msk = Inl ValueError"
    unfolding attention_weights_def by (auto split: list.splits)
  ultimately show ?thesis by simp
next
  case True
  then obtain B T C where x: "shape x = [B, T, C]" by blast
  show ?thesis
    unfolding CausalSelfAttention_forward_def attention_weights_def attention_output_def Let_def
    by (cases "Linear_forward (key a) x"; simp add: x;
        cases "split_heads B T C (n_head a) (projr (Linear_forward (key a) x))"; simp;
        cases "Linear_forward (query a) x"; simp;
        cases "split_heads B T C (n_head a) (projr (Linear_forward (query a) x))"; simp;
        cases "Linear_forward (value_lin a) x"; simp;
        cases "split_heads B T C (n_head a) (projr (Linear_forward (value_lin a) x))"; simp;
        cases "view_mask B msk"; simp;
        cases "masked_fill (tmap (\<lambda>u. u * (1 / sqrt (real (last (shape (projr (split_heads B T C (n_head a) (projr (Linear_forward (key a) x))))))))) (matmul_qk (projr (split_heads B T C (n_head a) (projr (Linear_forward (query a) x)))) (projr (split_heads B T C (n_head a) (projr (Linear_forward (key a) x)))))) (projr (view_mask B msk)) (- (10 ^ 10))"; simp)
qed

lemma split_heads_Inr:
  assumes "split_heads B T C nh t = Inr k"
  shows "shape k = [B, nat nh, T, nat (int C div nh)] \<and>
         elem k [b, h, t', d] = elem t [b, t', h * nat (int C div nh) + d]"
  using assms by (auto simp: split_heads_def Let_def split: if_splits)

lemma Linear_forward_Inr:
  assumes "Linear_forward l x = Inr y"
  shows "elem y [b, t, c] = linear_entry l x b t c"
  using assms by (auto simp: Linear_forward_def linear_entry_def split: if_splits option.splits)

lemma attention_weights_Inr:
  assumes "attention_weights a x msk = Inr tr" "shape x = [B, T, C]"
  shows "\<exists>mv. shape (scaled_scores tr) = [B, nat (n_head a), T, T] \<and>
           nat (int C div n_head a) \<noteq> 0 \<and>
           (\<forall>b h i j. elem (scaled_scores tr) [b, h, i, j] =
              (\<Sum>d<nat (int C div n_head a).
                 linear_entry (query a) x b i (h * nat (int C div n_head a) + d) *
                 linear_entry (key a) x b j (h * nat (int C div n_head a) + d)) *
              (1 / sqrt (real (nat (int C div n_head a))))) \<and>
           view_mask B msk = Inr mv \<and>
           masked_fill (scaled_scores tr) mv (- (10 ^ 10)) = Inr (filled_scores tr) \<and>
           weights tr = softmax_last (filled_scores tr)"
proof -
  let ?hs = "nat (int C div n_head a)"
  from assms obtain kx k qx q mv filled where
    kx: "Linear_forward (key a) x = Inr kx" and k: "split_heads B T C (n_head a) kx = Inr k" and
    qx: "Linear_forward (query a) x = Inr qx" and q: "split_heads B T C (n_head a) qx = Inr q" and
    mv: "view_mask B msk = Inr mv" and
    hs: "last (shape k) \<noteq> 0" and
    f: "masked_fill (tmap (\<lambda>u. u * (1 / sqrt (real (last (shape k))))) (matmul_qk q k)) mv
          (- (10 ^ 10)) = Inr filled" and
    tr: "tr = \<lparr>scaled_scores = tmap (\<lambda>u. u * (1 / sqrt (real (last (shape k))))) (matmul_qk q k),
               filled_scores = filled, weights = softmax_last filled,
               head_values = head_values tr\<rparr>"
    unfolding attention_weights_def Let_def
    by (auto simp: ebind_eq_Inr split: if_splits)
  note sk = split_heads_Inr[OF k] and sq = split_heads_Inr[OF q]
  have lk: "last (shape k) = ?hs" using sk[of 0 0 0 0] by simp
  have s: "scaled_scores tr = tmap (\<lambda>u. u * (1 / sqrt (real ?hs))) (matmul_qk q k)"
    using tr lk by (metis attention_trace.select_convs(1))
  have fs: "filled_scores tr = filled" and w: "weights tr = softmax_last filled"
    using tr by (metis attention_trace.select_convs(2), metis attention_trace.select_convs(3))
  have sh: "shape (scaled_scores tr) = [B, nat (n_head a), T, T]"
    using sk[of 0 0 0 0] sq[of 0 0 0 0] by (simp add: s tmap_def matmul_qk_def)
  have el: "elem (scaled_scores tr) [b, h, i, j] =
              (\<Sum>d<?hs. linear_entry (query a) x b i (h * ?hs + d) *
                        linear_entry (key a) x b j (h * ?hs + d)) * (1 / sqrt (real ?hs))"
    for b h i j
  proof -
    have lq: "last (shape q) = ?hs" using sq[of 0 0 0 0] by simp
    have "elem (scaled_scores tr) [b, h, i, j] =
            (\<Sum>d<?hs. elem q [b, h, i, d] * elem k [b, h, j, d]) * (1 / sqrt (real ?hs))"
      by (simp add: s tmap_def matmul_qk_def lq)
    also have "(\<Sum>d<?hs. elem q [b, h, i, d] * elem k [b, h, j, d]) =
               (\<Sum>d<?hs. linear_entry (query a) x b i (h * ?hs + d) *
                        linear_entry (key a) x b j (h * ?hs + d))"
      by (rule sum.cong[OF refl])
         (simp only: sk[THEN conjunct2] sq[THEN conjunct2] Linear_forward_Inr[OF kx]
            Linear_forward_Inr[OF qx])
    finally show ?thesis .
  qed
  have f': "masked_fill (scaled_scores tr) mv (- (10 ^ 10)) = Inr (filled_scores tr)"
    using f by (simp only: s lk fs)
  show ?thesis using sh hs lk el mv f' w fs by auto
qed

lemma attention_weights_masked:
  assumes tr: "attention_weights a x msk = Inr tr"
      and x: "shape x = [B, T, C]" and m: "shape msk = [B, T]"
      and b: "b < B" and h: "h < nat (n_head a)" and i: "i < T"
  shows "shape (weights tr) = [B, nat (n_head a), T, T]"
    and "j < T \<Longrightarrow> elem (filled_scores tr) [b, h, i, j] =
           (if elem msk [b, j] = 0 then - (10 ^ 10) else elem (scaled_scores tr) [b, h, i, j])"
    and "elem (weights tr) [b, h, i, j] =
           exp (elem (filled_scores tr) [b, h, i, j]) /
           (\<Sum>k<T. exp (if elem msk [b, k] = 0 then - (10 ^ 10)
                         else elem (scaled_scores tr) [b, h, i, k]))"
proof -
  from attention_weights_Inr[OF tr x] obtain mv where
    sh: "shape (scaled_scores tr) = [B, nat (n_head a), T, T]" and
    mv: "view_mask B msk = Inr mv" and
    f: "masked_fill (scaled_scores tr) mv (- (10 ^ 10)) = Inr (filled_scores tr)" and
    w: "weights tr = softmax_last (filled_scores tr)"
    by blast
  have B: "0 < B" using b by simp
  have fl: "shape (filled_scores tr) = [B, nat (n_head a), T, T] \<and>
            elem (filled_scores tr) [b, h, i, k] =
            (if elem msk [b, k] = 0 then - (10 ^ 10) else elem (scaled_scores tr) [b, h, i, k])"
    if "k < T" for k
    using masked_scores[OF sh m B b h i that] mv f by auto
  show "shape (weights tr) = [B, nat (n_head a), T, T]"
  proof (cases "T = 0")
    case True then show ?thesis using i by simp
  next
    case False then show ?thesis using fl[of 0] by (simp add: w)
  qed
  show "j < T \<Longrightarrow> elem (filled_scores tr) [b, h, i, j] =
           (if elem msk [b, j] = 0 then - (10 ^ 10) else elem (scaled_scores tr) [b, h, i, j])"
    using fl by simp
  have shf: "shape (filled_scores tr) = [B, nat (n_head a), T, T]" using fl[OF i] by simp
  have "elem (weights tr) [b, h, i, j] =
          exp (elem (filled_scores tr) [b, h, i, j]) /
          (\<Sum>k<T. exp (elem (filled_scores tr) [b, h, i, k]))"
    by (simp add: w softmax_last_def shf)
  also have "(\<Sum>k<T. exp (elem (filled_scores tr) [b, h, i, k])) =
             (\<Sum>k<T. exp (if elem msk [b, k] = 0 then - (10 ^ 10)
                           else elem (scaled_scores tr) [b, h, i, k]))"
    by (rule sum.cong[OF refl]) (simp add: fl)
  finally show "elem (weights tr) [b, h, i, j] =
           exp (elem (filled_scores tr) [b, h, i, j]) /
           (\<Sum>k<T. exp (if elem msk [b, k] = 0 then - (10 ^ 10)
                         else elem (scaled_scores tr) [b, h, i, k]))" .
qed

lemma softmax_term_bound:
  fixes f :: "nat \<Rightarrow> real"
  assumes "k < T"
  shows "exp c / (\<Sum>k<T. exp (f k)) \<le> exp (c - f k)"
proof -
  have "exp (f k) \<le> (\<Sum>k<T. exp (f k))"
    using assms by (intro member_le_sum) auto
  moreover have "0 < (\<Sum>k<T. exp (f k))"
    using assms by (intro sum_pos) auto
  ultimately have "exp c / (\<Sum>k<T. exp (f k)) \<le> exp c / exp (f k)"
    by (intro divide_left_mono) auto
  then show ?thesis by (simp add: exp_diff)
qed

lemma attention_weights_ok:
  assumes f: "in_features (key a) = n" "out_features (key a) = n"
             "in_features (query a) = n" "out_features (query a) = n"
             "in_features (value_lin a) = n" "out_features (value_lin a) = n"
             "in_features (proj_lin a) = n" "out_features (proj_lin a) = n"
      and nh: "0 < n_head a" "int n mod n_head a = 0" and n: "0 < n"
      and x: "shape x = [B, T, n]" and m: "shape msk = [B, T]" and B: "0 < B"
  shows "\<exists>tr. attention_weights a x msk = Inr tr"
proof -
  obtain y where "CausalSelfAttention_forward a keep_all x msk = Inr y"
    using attn_forward_ok[OF f nh n x m B] by blast
  then show ?thesis
    by (auto simp: forward_from_attention_weights ebind_eq_Inr)
qed

text \<open>
  Claim C2, as amended. Whenever \<open>forward\<close> reaches its softmax on an input of shape
  \<open>[B, T, C]\<close> with a mask of shape \<open>[B, T]\<close>, then for every row, head and query
  position a key position whose mask entry is 0 has the score \<open>- 10 ^ 10\<close> before the
  softmax: a large negative number, not minus infinity. Its weight after the softmax is
  \<open>exp (- 10 ^ 10)\<close> divided by the row's sum of exponentials, and so at most
  \<open>exp (- 10 ^ 10 - s)\<close> for every score \<open>s\<close> of an unmasked key of that row: negligible
  as soon as one unmasked score of the row lies well above \<open>- 10 ^ 10\<close>. It is not 0 for
  every input.
\<close>

theorem masked_keys_attention_weight:
  assumes "attention_weights a x msk = Inr tr"
      and "shape x = [B, T, C]" and "shape msk = [B, T]"
      and "b < B" and "h < nat (n_head a)" and "i < T" and "j < T"
      and "elem msk [b, j] = 0"
  shows "CausalSelfAttention_forward a dr x msk = attention_output a dr x tr \<and>
         elem (filled_scores tr) [b, h, i, j] = - (10 ^ 10) \<and>
         elem (weights tr) [b, h, i, j] =
           exp (- (10 ^ 10)) /
           (\<Sum>k<T. exp (if elem msk [b, k] = 0 then - (10 ^ 10)
                         else elem (scaled_scores tr) [b, h, i, k])) \<and>
         (\<forall>k<T. elem msk [b, k] \<noteq> 0 \<longrightarrow>
            elem (weights tr) [b, h, i, j]
              \<le> exp (- (10 ^ 10) - elem (scaled_scores tr) [b, h, i, k]))"
proof -
  note aw = attention_weights_masked[OF assms(1-6)]
  have 1: "CausalSelfAttention_forward a dr x msk = attention_output a dr x tr"
    by (simp only: forward_from_attention_weights assms(1) ebind_Inr)
  have 2: "elem (filled_scores tr) [b, h, i, j] = - (10 ^ 10)"
    using aw(2)[OF assms(7)] assms(8) by simp
  let ?f = "\<lambda>k. if elem msk [b, k] = 0 then - (10 ^ 10) else elem (scaled_scores tr) [b, h, i, k]"
  have 3: "elem (weights tr) [b, h, i, j] = exp (- (10 ^ 10)) / (\<Sum>k<T. exp (?f k))"
    using aw(3)[of j] by (simp only: 2)
  have 4: "elem (weights tr) [b, h, i, j]
             \<le> exp (- (10 ^ 10) - elem (scaled_scores tr) [b, h, i, k])"
    if "k < T" "elem msk [b, k] \<noteq> 0" for k
    using softmax_term_bound[OF that(1), of "- (10 ^ 10)" ?f] that(2) by (simp only: 3 if_False)
  show ?thesis using 1 2 3 4 by blast
qed

theorem masked_keys_attention_weight_witness:
  "\<exists>a tr. CausalSelfAttention_init 4 2 (1 / 10) (1 / 10) 128 zero_params zero_params zero_params
             zero_params = Inr a \<and>
     attention_weights a (zeros [2, 5, 4]) padded_mask = Inr tr \<and>
     shape (zeros [2, 5, 4]) = [2, 5, 4] \<and> shape padded_mask = [2, 5] \<and>
     elem padded_mask [0, 3] = 0 \<and> elem padded_mask [0, 0] \<noteq> 0 \<and>
     CausalSelfAttention_forward a keep_all (zeros [2, 5, 4]) padded_mask =
       attention_output a keep_all (zeros [2, 5, 4]) tr \<and>
     elem (filled_scores tr) [0, 1, 2, 3] = - (10 ^ 10) \<and>
     elem (scaled_scores tr) [0, 1, 2, 0] = 0 \<and>
     elem (weights tr) [0, 1, 2, 3] \<le> exp (- (10 ^ 10))"
proof -
  obtain a where a: "CausalSelfAttention_init 4 2 (1 / 10) (1 / 10) 128 zero_params zero_params
             zero_params zero_params = Inr a"
    by (simp add: attn_init_divisible)
  note ia = attn_init_Inr[OF a]
  have x: "shape (zeros [2, 5, 4]) = [2, 5, 4]" by (simp add: zeros_def)
  have x': "shape (zeros [2, 5, 4]) = [2, 5, nat 4]" by (simp add: zeros_def)
  have m: "shape padded_mask = [2, 5]" by (simp add: padded_mask_def)
  have e: "elem padded_mask [0, 3] = 0" "elem padded_mask [0, 0] \<noteq> 0"
    by (simp_all add: padded_mask_def)
  obtain tr where tr: "attention_weights a (zeros [2, 5, 4]) padded_mask = Inr tr"
    using attention_weights_ok[of a "nat 4" "zeros [2, 5, 4]" 2 5 padded_mask] ia x' m
    by auto
  have nh: "(1::nat) < nat (n_head a)" using ia by simp
  note t = masked_keys_attention_weight[OF tr x m _ nh _ _ e(1), of 2 keep_all]
  have ka: "key a = \<lparr>in_features = 4, out_features = 4, weight = fst zero_params,
                     bias = Some (snd zero_params)\<rparr>"
    using a by (auto simp: attn_init_divisible)
  have s0: "elem (scaled_scores tr) [0, 1, 2, 0] = 0"
    using attention_weights_Inr[OF tr x]
    by (auto simp: ka linear_entry_def zero_params_def zeros_def)
  have w: "elem (weights tr) [0, 1, 2, 3] \<le> exp (- (10 ^ 10))"
    using t[THEN conjunct2, THEN conjunct2, THEN conjunct2, rule_format, of 0] e(2) s0
    by simp
  show ?thesis using a tr x m e t s0 w by auto
qed

lemma saturated_scores_low: "(200000 * - 200000 + 200000 * - 200000) * (1 / sqrt 2) \<le> - (10 ^ 10 :: real)"
proof -
  have "sqrt 2 \<le> sqrt (4 :: real)" by (simp only: real_sqrt_le_iff)
  then have s: "sqrt 2 \<le> (2 :: real)" by simp
  have p: "0 < sqrt (2 :: real)" by simp
  have "(10 ^ 10 :: real) * sqrt 2 \<le> 10 ^ 10 * 2" using s by (intro mult_left_mono) simp_all
  also have "\<dots> \<le> 80000000000" by simp
  finally have "(10 ^ 10 :: real) \<le> 80000000000 / sqrt 2" using p by (simp add: pos_le_divide_eq)
  then show ?thesis by simp
qed

text \<open>
  The claim C2 as stated fails in its own scenario (2 sequences of 5 positions,
  \<open>n_embd = 4\<close>, \<open>n_head = 2\<close>, mask \<open>[1, 1, 1, 0, 0]\<close> on row 0). With key biases
  \<open>- 200000\<close> and query biases \<open>200000\<close> every unmasked score is
  \<open>- 8 * 10 ^ 10 / sqrt 2\<close>, below the fill value \<open>- 10 ^ 10\<close>: the padded keys 3 and
  4 then carry the larger scores of the row, and each receives a weight of at least 1/5.
\<close>

theorem saturated_scores_counterexample:
  "CausalSelfAttention_init 4 2 (1 / 10) (1 / 10) 128 low_key_params high_query_params
     zero_params zero_params = Inr saturated_attention \<and>
   \<not> isl (attention_weights saturated_attention (zeros [2, 5, 4]) padded_mask) \<and>
   elem padded_mask [0, 3] = 0 \<and> elem padded_mask [0, 4] = 0 \<and>
   1 / 5 \<le> elem (weights (projr (attention_weights saturated_attention (zeros [2, 5, 4])
                                     padded_mask))) [0, 0, 0, 3] \<and>
   1 / 5 \<le> elem (weights (projr (attention_weights saturated_attention (zeros [2, 5, 4])
                                     padded_mask))) [0, 0, 0, 4] \<and>
   elem (weights (projr (attention_weights saturated_attention (zeros [2, 5, 4])
                           padded_mask))) [0, 0, 0, 3] \<noteq> 0"
proof -
  have a: "CausalSelfAttention_init 4 2 (1 / 10) (1 / 10) 128 low_key_params high_query_params
     zero_params zero_params = Inr saturated_attention"
    by (simp add: attn_init_divisible saturated_attention_def)
  have x: "shape (zeros [2, 5, 4]) = [2, 5, 4]" by (simp add: zeros_def)
  have m: "shape padded_mask = [2, 5]" by (simp add: padded_mask_def)
  obtain tr where tr: "attention_weights saturated_attention (zeros [2, 5, 4]) padded_mask = Inr tr"
    using attention_weights_ok[of saturated_attention 4 "zeros [2, 5, 4]" 2 5 padded_mask] x m
    by (auto simp: saturated_attention_def)
  have nh: "nat (n_head saturated_attention) = 2" "int 4 div n_head saturated_attention = 2"
    by (simp_all add: saturated_attention_def)
  have le: "linear_entry (query saturated_attention) (zeros [2, 5, 4]) b i c = 200000"
           "linear_entry (key saturated_attention) (zeros [2, 5, 4]) b i c = - 200000" for b i c
    by (simp_all add: linear_entry_def saturated_attention_def high_query_params_def
          low_key_params_def zeros_def)
  define s :: real where "s = (200000 * - 200000 + 200000 * - 200000) * (1 / sqrt 2)"
  from attention_weights_Inr[OF tr x] have el:
    "\<forall>b h i j. elem (scaled_scores tr) [b, h, i, j] =
              (\<Sum>d<nat (int 4 div n_head saturated_attention).
                 linear_entry (query saturated_attention) (zeros [2, 5, 4]) b i
                   (h * nat (int 4 div n_head saturated_attention) + d) *
                 linear_entry (key saturated_attention) (zeros [2, 5, 4]) b j
                   (h * nat (int 4 div n_head saturated_attention) + d)) *
              (1 / sqrt (real (nat (int 4 div n_head saturated_attention))))"
    by blast
  have sc: "elem (scaled_scores tr) [b, h, i, k] = s" for b h i k
  proof -
    have "elem (scaled_scores tr) [b, h, i, k] =
            (\<Sum>d<nat 2. 200000 * - 200000) * (1 / sqrt (real (nat 2)))"
      by (simp only: el[rule_format] nh(2) le)
    also have "\<dots> = s" by (simp add: s_def)
    finally show ?thesis .
  qed
  have sl: "s \<le> - (10 ^ 10)" unfolding s_def by (rule saturated_scores_low)
  have h0: "(0::nat) < nat (n_head saturated_attention)" by (simp add: nh)
  note aw = attention_weights_masked[OF tr x m _ h0, of 0 0]
  define E :: real where "E = exp (- (10 ^ 10))"
  have Epos: "0 < E" by (simp add: E_def)
  have SE: "exp s \<le> E" unfolding E_def using sl by simp
  have f: "elem (filled_scores tr) [0, 0, 0, 3] = - (10 ^ 10)"
          "elem (filled_scores tr) [0, 0, 0, 4] = - (10 ^ 10)"
    using aw(2)[of 3] aw(2)[of 4] by (simp_all add: padded_mask_def)
  have den: "(\<Sum>k<5. exp (if elem padded_mask [0, k] = 0 then - (10 ^ 10)
                         else elem (scaled_scores tr) [0, 0, 0, k])) = 3 * exp s + 2 * E"
    by (simp add: sc padded_mask_def E_def eval_nat_numeral)
  have w: "elem (weights tr) [0, 0, 0, 3] = E / (3 * exp s + 2 * E)"
          "elem (weights tr) [0, 0, 0, 4] = E / (3 * exp s + 2 * E)"
    using aw(3)[of 3] aw(3)[of 4] by (simp_all only: f den E_def)
  have d: "3 * exp s + 2 * E \<le> 5 * E" using SE by simp
  have dpos: "0 < 3 * exp s + 2 * E" using Epos by (simp add: add_pos_pos)
  have "E / (5 * E) \<le> E / (3 * exp s + 2 * E)"
    using d dpos Epos by (intro divide_left_mono) simp_all
  then have ge: "1 / 5 \<le> E / (3 * exp s + 2 * E)" using Epos by simp
  have pr: "projr (attention_weights saturated_attention (zeros [2, 5, 4]) padded_mask) = tr"
    by (simp add: tr)
  have e: "elem padded_mask [0, 3] = 0" "elem padded_mask [0, 4] = 0"
    by (simp_all add: padded_mask_def)
  have nz: "E / (3 * exp s + 2 * E) \<noteq> 0" using ge by auto
  have i: "\<not> isl (attention_weights saturated_attention (zeros [2, 5, 4]) padded_mask)"
    by (simp add: tr)
  show ?thesis by (simp only: pr w) (intro conjI a i e ge nz)
qed

section \<open>Properties: the distributions of QANetOutput\<close>

lemma masked_softmax_rows:
  assumes "broadcast_shapes (shape logits) (shape msk) = Some [B, L]"
  shows "\<exists>p. masked_softmax logits msk True = Inr p \<and> shape p = [B, L] \<and>
           (\<forall>b j. elem p [b, j] =
              (if elem msk (bindex (shape msk) [b, j]) \<noteq> 0
               then elem logits (bindex (shape logits) [b, j]) -
                    ln (\<Sum>k<L. if elem msk (bindex (shape msk) [b, k]) \<noteq> 0
                               then exp (elem logits (bindex (shape logits) [b, k])) else 0)
               else masked_log_probability))"
  by (simp add: masked_softmax_def assms Let_def cong: if_cong)

lemma broadcast_squeezed:
  "broadcast_shapes ((if B = 1 then [] else [B]) @ (if T = 1 then [] else [T])) [B, T] =
     Some [B, if T = 1 then B else T]"
  by (simp add: broadcast_shapes_def pad_shape_def bdim_def)

lemma bindex_mask_row:
  "b < B \<Longrightarrow> bindex [B, T] [b, j] = [b, if T = 1 then 0 else j]"
  by (auto simp: bindex_def)

lemma masked_softmax_squeezed:
  assumes "shape s = [B, T, 1]" "shape msk = [B, T]"
  shows "\<exists>p. masked_softmax (squeeze s) msk True = Inr p \<and>
           shape p = [B, if T = 1 then B else T] \<and>
           (\<forall>b. b < B \<longrightarrow> (\<exists>t<T. elem msk [b, t] \<noteq> 0) \<longrightarrow>
              (\<Sum>j<(if T = 1 then B else T).
                 if elem msk [b, if T = 1 then 0 else j] \<noteq> 0 then exp (elem p [b, j]) else 0) = 1 \<and>
              (\<forall>j<(if T = 1 then B else T). elem msk [b, if T = 1 then 0 else j] = 0 \<longrightarrow>
                 elem p [b, j] = - (10 ^ 10)))"
proof -
  let ?L = "if T = 1 then B else T"
  have bs: "broadcast_shapes (shape (squeeze s)) (shape msk) = Some [B, ?L]"
    by (simp only: squeezed_logits_shape[OF assms(1)] assms(2) broadcast_squeezed)
  from masked_softmax_rows[OF bs]
  obtain p where p: "masked_softmax (squeeze s) msk True = Inr p" "shape p = [B, ?L]"
    "\<forall>b j. elem p [b, j] =
       (if elem msk (bindex (shape msk) [b, j]) \<noteq> 0
        then elem (squeeze s) (bindex (shape (squeeze s)) [b, j]) -
             ln (\<Sum>k<?L. if elem msk (bindex (shape msk) [b, k]) \<noteq> 0
                        then exp (elem (squeeze s) (bindex (shape (squeeze s)) [b, k])) else 0)
        else masked_log_probability)"
    by blast
  have row: "(\<Sum>j<?L. if elem msk [b, if T = 1 then 0 else j] \<noteq> 0 then exp (elem p [b, j]) else 0) = 1 \<and>
             (\<forall>j<?L. elem msk [b, if T = 1 then 0 else j] = 0 \<longrightarrow> elem p [b, j] = - (10 ^ 10))"
    if b: "b < B" and v: "\<exists>t<T. elem msk [b, t] \<noteq> 0" for b
  proof -
    let ?v = "\<lambda>j. elem msk [b, if T = 1 then 0 else j] \<noteq> 0"
    let ?l = "\<lambda>j. elem (squeeze s) (bindex (shape (squeeze s)) [b, j])"
    have e: "elem p [b, j] =
       (if ?v j then ?l j - ln (\<Sum>k<?L. if ?v k then exp (?l k) else 0) else - (10 ^ 10))" for j
      using p(3)[rule_format, of b j]
      by (simp only: assms(2) bindex_mask_row[OF b] masked_log_probability_def)
    have ex: "\<exists>j<?L. ?v j"
    proof (cases "T = 1")
      case True
      then have "elem msk [b, 0] \<noteq> 0" using v by auto
      then show ?thesis using True b by auto
    next
      case False
      then show ?thesis using v by auto
    qed
    have "(\<Sum>j<?L. if ?v j then exp (elem p [b, j]) else 0) =
          (\<Sum>j<?L. if ?v j then exp (?l j - ln (\<Sum>k<?L. if ?v k then exp (?l k) else 0)) else 0)"
      by (rule sum.cong[OF refl]) (simp add: e)
    also have "\<dots> = 1" by (rule masked_row_sums_to_one[OF ex])
    finally show ?thesis using e by simp
  qed
  show ?thesis using p(1,2) row by blast
qed


lemma QANetOutput_forward_masked:
  assumes "shape M1 = [B, T, H]" "shape M2 = [B, T, H]" "shape M3 = [B, T, H]"
      and "shape msk = [B, T]"
      and "in_features (w1 out) = H + H" "out_features (w1 out) = 1"
      and "in_features (w2 out) = H + H" "out_features (w2 out) = 1"
  shows "\<exists>s1 s2 p1 p2. shape s1 = [B, T, 1] \<and> shape s2 = [B, T, 1] \<and>
           masked_softmax (squeeze s1) msk True = Inr p1 \<and>
           masked_softmax (squeeze s2) msk True = Inr p2 \<and>
           QANetOutput_forward out masked_softmax M1 M2 M3 msk = Inr (p1, p2)"
proof -
  from QANetOutput_forward_ok[OF assms(1-3,5-8), of masked_softmax msk]
  obtain s1 s2 where s: "shape s1 = [B, T, 1]" "shape s2 = [B, T, 1]"
    "QANetOutput_forward out masked_softmax M1 M2 M3 msk =
       ebind (masked_softmax (squeeze s1) msk True) (\<lambda>p1.
       ebind (masked_softmax (squeeze s2) msk True) (\<lambda>p2. Inr (p1, p2)))"
    by blast
  obtain p1 where p1: "masked_softmax (squeeze s1) msk True = Inr p1"
    using masked_softmax_squeezed[OF s(1) assms(4)] by blast
  obtain p2 where p2: "masked_softmax (squeeze s2) msk True = Inr p2"
    using masked_softmax_squeezed[OF s(2) assms(4)] by blast
  have "QANetOutput_forward out masked_softmax M1 M2 M3 msk = Inr (p1, p2)"
    by (simp only: s(3) p1 p2 ebind_Inr)
  then show ?thesis using s(1,2) p1 p2 by blast
qed

lemma example_output_init: "QANetOutput_init 1 zero_params zero_params = Inr example_output"
  by (simp add: QANetOutput_init_def nn_Linear_def example_output_def)



text \<open>
  Claim C9, as amended. The unqualified \<open>squeeze()\<close> removes the batch dimension of
  the projected logits when \<open>B = 1\<close> and their sequence dimension when \<open>T = 1\<close>. The
  returned tensors nevertheless have two dimensions for every \<open>B\<close> and \<open>T\<close>, because the
  masked softmax pairs the squeezed logits with the mask of shape \<open>[B, T]\<close>: their shape
  is \<open>[B, T]\<close> whenever \<open>T\<close> is not 1 or \<open>B\<close> is 1, a batch of one sequence included, and
  \<open>[B, B]\<close> when \<open>T = 1\<close> and \<open>B\<close> is not 1.
\<close>

theorem QANetOutput_returned_shape:
  assumes "shape M1 = [B, T, H]" "shape M2 = [B, T, H]" "shape M3 = [B, T, H]"
      and "shape msk = [B, T]"
      and "in_features (w1 out) = H + H" "out_features (w1 out) = 1"
      and "in_features (w2 out) = H + H" "out_features (w2 out) = 1"
  shows "\<exists>s1 s2 p1 p2.
           shape (squeeze s1) = (if B = 1 then [] else [B]) @ (if T = 1 then [] else [T]) \<and>
           shape (squeeze s2) = (if B = 1 then [] else [B]) @ (if T = 1 then [] else [T]) \<and>
           masked_softmax (squeeze s1) msk True = Inr p1 \<and>
           masked_softmax (squeeze s2) msk True = Inr p2 \<and>
           QANetOutput_forward out masked_softmax M1 M2 M3 msk = Inr (p1, p2) \<and>
           shape p1 = [B, if T = 1 then B else T] \<and>
           shape p2 = [B, if T = 1 then B else T] \<and>
           (T \<noteq> 1 \<or> B = 1 \<longrightarrow> shape p1 = [B, T] \<and> shape p2 = [B, T]) \<and>
           (T = 1 \<and> B \<noteq> 1 \<longrightarrow> shape p1 \<noteq> [B, T] \<and> shape p2 \<noteq> [B, T])"
proof -
  from QANetOutput_forward_masked[OF assms(1-8)]
  obtain s1 s2 p1 p2 where s: "shape s1 = [B, T, 1]" "shape s2 = [B, T, 1]"
    and p1: "masked_softmax (squeeze s1) msk True = Inr p1"
    and p2: "masked_softmax (squeeze s2) msk True = Inr p2"
    and f: "QANetOutput_forward out masked_softmax M1 M2 M3 msk = Inr (p1, p2)"
    by blast
  have sh1: "shape p1 = [B, if T = 1 then B else T]"
    using masked_softmax_squeezed[OF s(1) assms(4)] p1 by auto
  have sh2: "shape p2 = [B, if T = 1 then B else T]"
    using masked_softmax_squeezed[OF s(2) assms(4)] p2 by auto
  have c: "(T \<noteq> 1 \<or> B = 1 \<longrightarrow> shape p1 = [B, T] \<and> shape p2 = [B, T]) \<and>
           (T = 1 \<and> B \<noteq> 1 \<longrightarrow> shape p1 \<noteq> [B, T] \<and> shape p2 \<noteq> [B, T])"
    by (auto simp: sh1 sh2)
  show ?thesis
    using squeezed_logits_shape[OF s(1)] squeezed_logits_shape[OF s(2)] p1 p2 f sh1 sh2 c
    by blast
qed

theorem QANetOutput_returned_shape_witness:
  "\<exists>p1 p2. QANetOutput_init 1 zero_params zero_params = Inr example_output \<and>
     QANetOutput_forward example_output masked_softmax (zeros [2, 1, 1]) (zeros [2, 1, 1])
       (zeros [2, 1, 1]) (ones [2, 1]) = Inr (p1, p2) \<and>
     shape (ones [2, 1]) = [2, 1] \<and> shape p1 = [2, 2] \<and> shape p2 = [2, 2]"
proof -
  have z: "shape (zeros [2, 1, 1]) = [2, 1, 1]" by (simp add: zeros_def)
  have m: "shape (ones [2, 1]) = [2, 1]" by (simp add: ones_def)
  have o: "in_features (w1 example_output) = 1 + 1" "out_features (w1 example_output) = 1"
          "in_features (w2 example_output) = 1 + 1" "out_features (w2 example_output) = 1"
    by (simp_all add: example_output_def)
  from QANetOutput_returned_shape[OF z z z m o]
  obtain p1 p2 where
    "QANetOutput_forward example_output masked_softmax (zeros [2, 1, 1]) (zeros [2, 1, 1])
       (zeros [2, 1, 1]) (ones [2, 1]) = Inr (p1, p2)" "shape p1 = [2, 2]" "shape p2 = [2, 2]"
    by auto
  then show ?thesis using example_output_init m by blast
qed

text \<open>
  The claim C9 as stated fails for a batch of one sequence of 3 positions: \<open>forward\<close>
  returns two tensors of shape \<open>[1, 3]\<close>, the shape \<open>[B, T]\<close>.
\<close>

theorem QANetOutput_single_sequence_counterexample:
  "QANetOutput_init 1 zero_params zero_params = Inr example_output \<and>
   \<not> isl (QANetOutput_forward example_output masked_softmax (zeros [1, 3, 1]) (zeros [1, 3, 1])
            (zeros [1, 3, 1]) (ones [1, 3])) \<and>
   shape (fst (projr (QANetOutput_forward example_output masked_softmax (zeros [1, 3, 1])
            (zeros [1, 3, 1]) (zeros [1, 3, 1]) (ones [1, 3])))) = [1, 3] \<and>
   shape (snd (projr (QANetOutput_forward example_output masked_softmax (zeros [1, 3, 1])
            (zeros [1, 3, 1]) (zeros [1, 3, 1]) (ones [1, 3])))) = [1, 3]"
proof -
  have z: "shape (zeros [1, 3, 1]) = [1, 3, 1]" by (simp add: zeros_def)
  have m: "shape (ones [1, 3]) = [1, 3]" by (simp add: ones_def)
  have o: "in_features (w1 example_output) = 1 + 1" "out_features (w1 example_output) = 1"
          "in_features (w2 example_output) = 1 + 1" "out_features (w2 example_output) = 1"
    by (simp_all add: example_output_def)
  from QANetOutput_forward_masked[OF z z z m o]
  obtain s1 s2 p1 p2 where s: "shape s1 = [1, 3, 1]" "shape s2 = [1, 3, 1]"
    and p1: "masked_softmax (squeeze s1) (ones [1, 3]) True = Inr p1"
    and p2: "masked_softmax (squeeze s2) (ones [1, 3]) True = Inr p2"
    and f: "QANetOutput_forward example_output masked_softmax (zeros [1, 3, 1]) (zeros [1, 3, 1])
              (zeros [1, 3, 1]) (ones [1, 3]) = Inr (p1, p2)"
    by blast
  have sh1: "shape p1 = [1, 3]"
    using masked_softmax_squeezed[OF s(1) m] p1 by auto
  have sh2: "shape p2 = [1, 3]"
    using masked_softmax_squeezed[OF s(2) m] p2 by auto
  show ?thesis by (simp only: f) (simp add: example_output_init sh1 sh2)
qed

end
